theory Spec2Isabelle
  imports Main "HOL-Library.Word"
begin

section \<open>Machine integers and library constants\<close>

text \<open>
  \<^verbatim>\<open>guint64\<close> (frame\_counter, current\_index, GstClockTime) is a 64-bit word and
  \<^verbatim>\<open>guint\<close> (TARGET\_FPS) a 32-bit word; \<open>+\<close> on them wraps as the C++ operators do.
\<close>

type_synonym guint64 = "64 word"
type_synonym guint = "32 word"

definition G_MAXUINT64 :: guint64 where
  "G_MAXUINT64 = 18446744073709551615"

definition GST_CLOCK_TIME_NONE :: guint64 where
  "GST_CLOCK_TIME_NONE = 18446744073709551615"

definition GST_SECOND :: guint64 where
  "GST_SECOND = 1000000000"

text \<open>
  \<^verbatim>\<open>gst_util_uint64_scale\<close> is a function of the GStreamer library, not of this
  repository. It is modelled from its reference documentation: the result is
  \<open>val * num / denom\<close> computed without intermediate overflow and truncated to an
  integer; \<open>G_MAXUINT64\<close> when the quotient does not fit in 64 bits, and also when
  \<open>denom\<close> is zero (the function's argument check).
\<close>

definition gst_util_uint64_scale :: "guint64 \<Rightarrow> guint64 \<Rightarrow> guint64 \<Rightarrow> guint64" where
  "gst_util_uint64_scale val num denom =
     (if denom = 0 then G_MAXUINT64
      else if unat val * unat num div unat denom > unat G_MAXUINT64 then G_MAXUINT64
      else of_nat (unat val * unat num div unat denom))"

section \<open>File-system observations\<close>

text \<open>
  The frame directory is written and pruned by other processes while the feeder runs, so
  every call of \<^verbatim>\<open>fs::exists\<close> and \<^verbatim>\<open>fs::file_size\<close> reads the file system at
  its own moment. An observation is what the file system would answer at that moment.
  \<^verbatim>\<open>fs::file_size(path)\<close> (the overload without \<^verbatim>\<open>error_code\<close>) throws
  \<^verbatim>\<open>filesystem_error\<close> when the file is not there.
\<close>

datatype fs_obs = Missing | Size nat

datatype 'a res = Returns 'a | Throws

definition fs_exists :: "fs_obs \<Rightarrow> bool" where
  "fs_exists ob = (case ob of Missing \<Rightarrow> False | Size n \<Rightarrow> True)"

definition fs_file_size :: "fs_obs \<Rightarrow> nat res" where
  "fs_file_size ob = (case ob of Missing \<Rightarrow> Throws | Size n \<Rightarrow> Returns n)"

text \<open>
  A finite script of answers followed by a constant answer: the \<open>k\<close>-th file-system
  call of an invocation sees \<open>answers xs d k\<close>.
\<close>

definition answers :: "fs_obs list \<Rightarrow> fs_obs \<Rightarrow> nat \<Rightarrow> fs_obs" where
  "answers xs d k = (if k < length xs then xs ! k else d)"

section \<open>FileReadinessProbe: \<^verbatim>\<open>is_file_ready\<close>\<close>

text \<open>
  \<^verbatim>\<open>
  bool is_file_ready(const fs::path& path, int max_attempts = 5, int delay_ms = 2) {
      if (!fs::exists(path)) return false;
      auto last_size = fs::file_size(path);
      for (int i = 0; i < max_attempts; ++i) {
          std::this_thread::sleep_for(std::chrono::milliseconds(delay_ms));
          if (!fs::exists(path)) return false;
          auto new_size = fs::file_size(path);
          if (new_size == last_size) return true;
          last_size = new_size;
      }
      return false;
  }
  \<close>
  The function is the same in both feeders. \<open>obs k\<close> is the answer to its \<open>k\<close>-th
  file-system call: call 0 is the first \<^verbatim>\<open>exists\<close>, call 1 the first
  \<^verbatim>\<open>file_size\<close>; attempt \<open>i\<close> of the loop sleeps \<open>delay_ms\<close>, then makes call
  \<open>2 * i + 2\<close> (\<^verbatim>\<open>exists\<close>) and call \<open>2 * i + 3\<close> (\<^verbatim>\<open>file_size\<close>).
\<close>

function is_file_ready_loop :: "(nat \<Rightarrow> fs_obs) \<Rightarrow> nat \<Rightarrow> nat \<Rightarrow> nat \<Rightarrow> bool res" where
  "is_file_ready_loop obs max_attempts i last_size =
     (if i < max_attempts then
        (if \<not> fs_exists (obs (2 * i + 2)) then Returns False
         else (case fs_file_size (obs (2 * i + 3)) of
                 Throws \<Rightarrow> Throws
               | Returns new_size \<Rightarrow>
                   if new_size = last_size then Returns True
                   else is_file_ready_loop obs max_attempts (i + 1) new_size))
      else Returns False)"
  by pat_completeness auto
termination
  by (relation "measure (\<lambda>(obs, max_attempts, i, last_size). max_attempts - i)") auto

declare is_file_ready_loop.simps [simp del]

definition is_file_ready_n :: "(nat \<Rightarrow> fs_obs) \<Rightarrow> nat \<Rightarrow> bool res" where
  "is_file_ready_n obs max_attempts =
     (if \<not> fs_exists (obs 0) then Returns False
      else (case fs_file_size (obs 1) of
              Throws \<Rightarrow> Throws
            | Returns last_size \<Rightarrow> is_file_ready_loop obs max_attempts 0 last_size))"

text \<open>Both feeders call it with the default \<open>max_attempts = 5\<close>.\<close>

definition is_file_ready :: "(nat \<Rightarrow> fs_obs) \<Rightarrow> bool res" where
  "is_file_ready obs = is_file_ready_n obs 5"

section \<open>KeyframeClassifier: \<^verbatim>\<open>is_iframe\<close>\<close>

text \<open>
  \<^verbatim>\<open>
  static constexpr std::size_t IFRAME_MIN_SIZE = 30 * 1024; // 30 KB
  bool is_iframe(const fs::path& path) {
      try {
          if (!fs::exists(path)) return false;
          return fs::file_size(path) >= IFRAME_MIN_SIZE;
      } catch (...) { return false; }
  }
  \<close>
\<close>

definition IFRAME_MIN_SIZE :: nat where
  "IFRAME_MIN_SIZE = 30 * 1024"

definition is_iframe :: "fs_obs \<Rightarrow> fs_obs \<Rightarrow> bool" where
  "is_iframe ob_exists ob_size =
     (if \<not> fs_exists ob_exists then False
      else (case fs_file_size ob_size of
              Throws \<Rightarrow> False
            | Returns n \<Rightarrow> n \<ge> IFRAME_MIN_SIZE))"

section \<open>Strings: the \<^verbatim>\<open>std::string\<close> operations the code uses\<close>

text \<open>
  \<^verbatim>\<open>std::string::npos\<close> is \<open>None\<close>. \<open>str_find s needle pos\<close> is
  \<^verbatim>\<open>s.find(needle, pos)\<close>, \<open>find_first_of s cs pos\<close> is
  \<^verbatim>\<open>s.find_first_of(cs, pos)\<close>, \<open>find_last_of s c\<close> is \<^verbatim>\<open>s.find_last_of(c)\<close>,
  \<open>substr s pos n\<close> is \<^verbatim>\<open>s.substr(pos, n)\<close> for \<open>pos \<le> size\<close> (the only way the
  code calls it) and \<open>c_str s\<close> is the text a C string holds up to its first NUL.
\<close>

fun str_find_at :: "string \<Rightarrow> string \<Rightarrow> nat \<Rightarrow> nat option" where
  "str_find_at needle [] i = (if needle = [] then Some i else None)"
| "str_find_at needle (c # cs) i =
     (if take (length needle) (c # cs) = needle then Some i
      else str_find_at needle cs (Suc i))"

definition str_find :: "string \<Rightarrow> string \<Rightarrow> nat \<Rightarrow> nat option" where
  "str_find s needle pos =
     (if pos > length s then None else str_find_at needle (drop pos s) pos)"

fun find_first_of_at :: "string \<Rightarrow> string \<Rightarrow> nat \<Rightarrow> nat option" where
  "find_first_of_at cs [] i = None"
| "find_first_of_at cs (c # rest) i =
     (if c \<in> set cs then Some i else find_first_of_at cs rest (Suc i))"

definition find_first_of :: "string \<Rightarrow> string \<Rightarrow> nat \<Rightarrow> nat option" where
  "find_first_of s cs pos = find_first_of_at cs (drop pos s) pos"

fun find_last_of_at :: "char \<Rightarrow> string \<Rightarrow> nat \<Rightarrow> nat option \<Rightarrow> nat option" where
  "find_last_of_at c [] i found = found"
| "find_last_of_at c (d # rest) i found =
     find_last_of_at c rest (Suc i) (if d = c then Some i else found)"

definition find_last_of :: "string \<Rightarrow> char \<Rightarrow> nat option" where
  "find_last_of s c = find_last_of_at c s 0 None"

definition substr :: "string \<Rightarrow> nat \<Rightarrow> nat \<Rightarrow> string" where
  "substr s pos n = take n (drop pos s)"

definition c_str :: "string \<Rightarrow> string" where
  "c_str s = takeWhile (\<lambda>c. c \<noteq> CHR 0x00) s"

text \<open>Decimal text of an unsigned number, as \<^verbatim>\<open>operator<<\<close> and \<^verbatim>\<open>%llu\<close> print it.\<close>

definition digit_char :: "nat \<Rightarrow> char" where
  "digit_char d = ''0123456789'' ! d"

function dec :: "nat \<Rightarrow> string" where
  "dec n = (if n < 10 then [digit_char n] else dec (n div 10) @ [digit_char (n mod 10)])"
  by pat_completeness auto
termination
  by (relation "measure (\<lambda>n. n)") auto

declare dec.simps [simp del]

text \<open>
  \<^verbatim>\<open>
  std::string make_frame_filename(guint64 idx) {
      char buf[256];
      snprintf(buf, sizeof(buf),
               "frame_%s_%09" G_GUINT64_FORMAT ".hevc", camera_prefix.c_str(), idx);
      return std::string(buf);
  }
  \<close>
  \<^verbatim>\<open>%09\<close> pads with zeros to at least nine digits; \<^verbatim>\<open>snprintf\<close> keeps at most 255
  characters. The global \<^verbatim>\<open>camera_prefix\<close> is a parameter.
\<close>

definition pad9 :: "string \<Rightarrow> string" where
  "pad9 s = replicate (9 - length s) (CHR ''0'') @ s"

definition make_frame_filename :: "string \<Rightarrow> guint64 \<Rightarrow> string" where
  "make_frame_filename camera_prefix idx =
     take 255 (''frame_'' @ c_str camera_prefix @ ''_'' @ pad9 (dec (unat idx)) @ ''.hevc'')"

section \<open>MetadataCorrelator and EventLogger: \<^verbatim>\<open>video_probe\<close>\<close>

record MetadataRecord =
  ball :: string
  frame_name :: string
  innings :: string
  isStart :: string
  matchID :: string
  over :: string
  ptp_timestamp :: string
  received_at :: string

text \<open>
  The values the fields are initialised with, before any lookup
  (\<^verbatim>\<open>std::string ball = "1", frame_name = "NA", innings = "1", isStart = "false",
  matchID = "123", over = "1", ptp_timestamp = "NA", received_at = "NA";\<close>).
\<close>

definition default_metadata :: MetadataRecord where
  "default_metadata =
     \<lparr>ball = ''1'', frame_name = ''NA'', innings = ''1'', isStart = ''false'',
      matchID = ''123'', over = ''1'', ptp_timestamp = ''NA'', received_at = ''NA''\<rparr>"

text \<open>
  The lambda \<^verbatim>\<open>extract\<close> of \<^verbatim>\<open>video_probe\<close> (\<open>extract_field\<close> here, as
  \<open>extract\<close> is a command of Isabelle/HOL):
  \<^verbatim>\<open>
  size_t pos = json.find("\"" + key + "\":");
  if (pos == std::string::npos) return "NA";
  pos += key.size() + 3; // move past "key":
  if (pos >= json.size()) return "NA";
  if (json[pos] == '"') {
      size_t end = json.find('"', pos + 1);
      if (end == std::string::npos) return "NA";
      return json.substr(pos + 1, end - pos - 1);
  } else {
      size_t end = json.find_first_of(",}", pos);
      if (end == std::string::npos) return json.substr(pos);
      return json.substr(pos, end - pos);
  }
  \<close>
  \<open>CHR 0x22\<close> is the double quote and \<open>label_of key\<close> the text
  \<^verbatim>\<open>"\"" + key + "\":"\<close> that is searched for.
\<close>

definition label_of :: "string \<Rightarrow> string" where
  "label_of key = [CHR 0x22] @ key @ [CHR 0x22, CHR '':'']"

definition extract_field :: "string \<Rightarrow> string \<Rightarrow> string" where
  "extract_field json key =
     (case str_find json (label_of key) 0 of
        None \<Rightarrow> ''NA''
      | Some p \<Rightarrow>
          (let pos = p + (length key + 3) in
           if pos \<ge> length json then ''NA''
           else if json ! pos = CHR 0x22 then
             (case str_find json [CHR 0x22] (pos + 1) of
                None \<Rightarrow> ''NA''
              | Some e \<Rightarrow> substr json (pos + 1) (e - pos - 1))
           else
             (case find_first_of json '',}'' pos of
                None \<Rightarrow> drop pos json
              | Some e \<Rightarrow> substr json pos (e - pos))))"

definition extract_all :: "string \<Rightarrow> MetadataRecord" where
  "extract_all json =
     \<lparr>ball = extract_field json ''ball'', frame_name = extract_field json ''frame_name'',
      innings = extract_field json ''innings'', isStart = extract_field json ''isStart'',
      matchID = extract_field json ''matchID'', over = extract_field json ''over'',
      ptp_timestamp = extract_field json ''ptp_timestamp'',
      received_at = extract_field json ''received_at''\<rparr>"

text \<open>
  The store. \<^verbatim>\<open>pdata->redis\<close> is a \<^verbatim>\<open>redisContext*\<close>, null (\<open>None\<close>) when the
  connection failed at start-up. \<^verbatim>\<open>redisCommand(ctx, "GET %s", key)\<close> (hiredis, not
  this repository) returns a null pointer when the connection fails, and otherwise a reply
  whose type is \<^verbatim>\<open>REDIS_REPLY_STRING\<close> (the value) or something else
  (\<^verbatim>\<open>REDIS_REPLY_NIL\<close> for an absent key, an error reply, ...). What the server
  answers at the moment of a call is a function from the key, given with each call.
\<close>

datatype redisContext = RedisContext

datatype redisReply = REDIS_REPLY_STRING string | REDIS_REPLY_OTHER

type_synonym redis_server = "string \<Rightarrow> redisReply option"

record ofstream =
  is_open :: bool
  rows :: "string list list"

text \<open>
  A row is the list of its comma-separated fields; every row the probe writes is ended
  by a newline and flushed.
\<close>

definition write_row :: "string list \<Rightarrow> ofstream \<Rightarrow> ofstream" where
  "write_row r f = f\<lparr>rows := rows f @ [r]\<rparr>"

record ProbeData =
  csv :: ofstream
  csv_summary :: ofstream
  redis :: "redisContext option"

text \<open>
  What \<^verbatim>\<open>video_probe\<close> reads and writes: the \<^verbatim>\<open>ProbeData\<close> it is registered with
  (\<^verbatim>\<open>main\<close> always passes a non-null pointer with non-null streams), its static
  \<^verbatim>\<open>prev_ball\<close>, \<^verbatim>\<open>prev_over\<close>, \<^verbatim>\<open>prev_innings\<close>, and the trace of keys it
  has sent to the store.
\<close>

record probe_state =
  pdata :: ProbeData
  prev_ball :: string
  prev_over :: string
  prev_innings :: string
  lookups :: "string list"

definition initial_probe_state :: "ProbeData \<Rightarrow> probe_state" where
  "initial_probe_state pd =
     \<lparr>pdata = pd, prev_ball = ''0'', prev_over = ''0'', prev_innings = ''0'', lookups = []\<rparr>"

definition redis_key_of :: "string \<Rightarrow> string" where
  "redis_key_of fname =
     (case find_last_of fname (CHR ''.'') of None \<Rightarrow> fname | Some i \<Rightarrow> substr fname 0 i)"

text \<open>Lines 116 to 150 of \<^verbatim>\<open>video_probe\<close>: the defaults, then the lookup if there is a context.\<close>

definition lookup_metadata ::
  "redisContext option \<Rightarrow> redis_server \<Rightarrow> string \<Rightarrow> MetadataRecord" where
  "lookup_metadata r server redis_key =
     (case r of
        None \<Rightarrow> default_metadata
      | Some ctx \<Rightarrow>
          (case server redis_key of
             Some (REDIS_REPLY_STRING str) \<Rightarrow> extract_all (c_str str)
           | Some REDIS_REPLY_OTHER \<Rightarrow> default_metadata
           | None \<Rightarrow> default_metadata))"

definition primary_row :: "guint64 \<Rightarrow> string \<Rightarrow> string \<Rightarrow> MetadataRecord \<Rightarrow> string list" where
  "primary_row frame_counter pts_text fname m =
     [dec (unat frame_counter), pts_text, fname, ball m, frame_name m, innings m,
      isStart m, matchID m, over m, ptp_timestamp m, received_at m]"

definition summary_row :: "guint64 \<Rightarrow> guint64 \<Rightarrow> MetadataRecord \<Rightarrow> string list" where
  "summary_row frame_counter pts_90k m =
     [dec (unat frame_counter), dec (unat pts_90k), over m, ball m, innings m, matchID m]"

definition triple_changed :: "MetadataRecord \<Rightarrow> probe_state \<Rightarrow> bool" where
  "triple_changed m st =
     (ball m \<noteq> prev_ball st \<or> over m \<noteq> prev_over st \<or> innings m \<noteq> prev_innings st)"

text \<open>
  \<^verbatim>\<open>video_probe\<close>. \<open>info\<close> is \<open>None\<close> when the probe info is not a buffer and
  \<open>Some pts\<close> with the buffer's PTS otherwise; \<open>frame_counter\<close> is the value the
  global holds when the probe runs (it is written by the feeder thread); \<open>server\<close> is
  what the store answers during this call. The probe always
  returns \<^verbatim>\<open>GST_PAD_PROBE_OK\<close>, so only its effect on the state is modelled.
\<close>

definition video_probe ::
  "string \<Rightarrow> guint64 \<Rightarrow> redis_server \<Rightarrow> guint64 option \<Rightarrow> probe_state \<Rightarrow> probe_state" where
  "video_probe camera_prefix frame_counter server info st =
     (case info of
        None \<Rightarrow> st
      | Some pts \<Rightarrow>
          (let fname = make_frame_filename camera_prefix frame_counter;
               redis_key = redis_key_of fname;
               m = lookup_metadata (redis (pdata st)) server redis_key;
               asked = (case redis (pdata st) of None \<Rightarrow> [] | Some ctx \<Rightarrow> [redis_key]);
               pd = pdata st;
               pd' =
                 (if pts \<noteq> GST_CLOCK_TIME_NONE then
                    (let pts_90k = gst_util_uint64_scale pts 90000 GST_SECOND;
                         pd1 = (if is_open (csv pd)
                                then pd\<lparr>csv := write_row
                                       (primary_row frame_counter (dec (unat pts_90k)) fname m)
                                       (csv pd)\<rparr>
                                else pd)
                     in if is_open (csv_summary pd1) \<and> triple_changed m st
                        then pd1\<lparr>csv_summary := write_row
                               (summary_row frame_counter pts_90k m) (csv_summary pd1)\<rparr>
                        else pd1)
                  else
                    (if is_open (csv pd)
                     then pd\<lparr>csv := write_row (primary_row frame_counter ''NA'' fname m)
                            (csv pd)\<rparr>
                     else pd))
           in st\<lparr>pdata := pd', prev_ball := ball m, prev_over := over m,
                 prev_innings := innings m, lookups := lookups st @ asked\<rparr>))"

section \<open>Buffers, events and the environment of one loop pass\<close>

text \<open>
  A \<^verbatim>\<open>GstBuffer\<close> as the feeders use it. \<^verbatim>\<open>gst_buffer_new_allocate\<close> leaves PTS,
  DTS and duration at \<^verbatim>\<open>GST_CLOCK_TIME_NONE\<close> and the offset at
  \<^verbatim>\<open>GST_BUFFER_OFFSET_NONE\<close> (both are the all-ones word).
\<close>

record GstBuffer =
  payload :: "8 word list"
  PTS :: guint64
  DTS :: guint64
  DURATION :: guint64
  OFFSET :: guint64

definition gst_buffer_new_allocate :: "8 word list \<Rightarrow> GstBuffer" where
  "gst_buffer_new_allocate bytes =
     \<lparr>payload = bytes, PTS = GST_CLOCK_TIME_NONE, DTS = GST_CLOCK_TIME_NONE,
      DURATION = GST_CLOCK_TIME_NONE, OFFSET = G_MAXUINT64\<rparr>"

text \<open>
  What a loop pass does to the outside, in order: sleeps, lines on \<^verbatim>\<open>std::cerr\<close>
  (by kind, with the numbers they print) and buffers accepted by
  \<^verbatim>\<open>gst_app_src_push_buffer\<close>. Clock readings are nanoseconds of
  \<^verbatim>\<open>std::chrono::steady_clock\<close>.
\<close>

datatype feed_event =
    Sleep_until nat
  | Sleep_for_ms nat
  | Warn_behind nat guint64
  | Log_not_ready
  | Log_skip nat
  | Log_open_failed
  | Log_read_failed
  | Log_map_failed
  | Log_push_failed
  | Pushed GstBuffer
  | Log_pushed guint64
  | Log_stats

fun pushed_buffers :: "feed_event list \<Rightarrow> GstBuffer list" where
  "pushed_buffers [] = []"
| "pushed_buffers (Pushed b # es) = b # pushed_buffers es"
| "pushed_buffers (e # es) = pushed_buffers es"

fun warnings :: "feed_event list \<Rightarrow> feed_event list" where
  "warnings [] = []"
| "warnings (Warn_behind d n # es) = Warn_behind d n # warnings es"
| "warnings (e # es) = warnings es"

text \<open>
  The answers of the outside world during one pass of the loop: the clock reading at the
  top, the file-system answers to \<^verbatim>\<open>is_file_ready\<close>, to the two calls of
  \<^verbatim>\<open>is_iframe\<close> and to the \<^verbatim>\<open>fs::file_size\<close> of the skip message, whether the
  \<^verbatim>\<open>ifstream\<close> opens, the bytes read (\<open>None\<close> when the read fails), whether
  \<^verbatim>\<open>gst_buffer_map\<close> succeeds and whether the push returns \<^verbatim>\<open>GST_FLOW_OK\<close>.
  \<^verbatim>\<open>tellg\<close> and the allocations of the vector and of the buffer are taken to succeed.
\<close>

record tick_env =
  now :: nat
  ready_obs :: "nat \<Rightarrow> fs_obs"
  iframe_exists_obs :: fs_obs
  iframe_size_obs :: fs_obs
  skip_size_obs :: fs_obs
  open_ok :: bool
  read_result :: "8 word list option"
  map_ok :: bool
  push_ok :: bool

text \<open>
  How a pass ends: \<^verbatim>\<open>continue\<close> or the end of the loop body, \<^verbatim>\<open>break\<close>, or the
  end of the process (an exception nobody catches in the feeder thread, or the integer
  division by a zero \<^verbatim>\<open>TARGET_FPS\<close> in the statistics line).
\<close>

datatype 'st outcome = Continue 'st | Break 'st | Aborted

text \<open>
  The configuration fixed before the loop starts. \<open>frame_duration\<close> is the value of
  \<^verbatim>\<open>std::chrono::microseconds(static_cast<int>(FrameIntervalMs * 1000))\<close>, a whole
  number of microseconds computed once from the \<^verbatim>\<open>double\<close>
  \<^verbatim>\<open>FrameIntervalMs = 1000.0 / TARGET_FPS\<close>; \<open>start_time\<close> is the clock reading taken
  when \<^verbatim>\<open>feed_frames\<close> starts.
\<close>

record feed_config =
  TARGET_FPS :: guint
  frame_duration :: nat
  start_time :: nat
  camera_prefix :: string

record feeder =
  frame_counter :: guint64
  current_index :: guint64

section \<open>TimestampAllocator (\<^verbatim>\<open>main.cpp\<close>, lines 109 to 112)\<close>

text \<open>
  \<^verbatim>\<open>
  GstClockTime pts = gst_util_uint64_scale(frame_counter, GST_SECOND, TARGET_FPS);
  GST_BUFFER_PTS(buffer) = pts;
  GST_BUFFER_DTS(buffer) = pts;
  GST_BUFFER_DURATION(buffer) = gst_util_uint64_scale(1, GST_SECOND, TARGET_FPS);
  \<close>
\<close>

definition set_timestamps :: "guint \<Rightarrow> guint64 \<Rightarrow> GstBuffer \<Rightarrow> GstBuffer" where
  "set_timestamps fps n buffer =
     (let pts = gst_util_uint64_scale n GST_SECOND (ucast fps)
      in buffer\<lparr>PTS := pts, DTS := pts,
                DURATION := gst_util_uint64_scale 1 GST_SECOND (ucast fps)\<rparr>)"

text \<open>The conversion of \<^verbatim>\<open>video_probe\<close> (line 154) from nanoseconds to 90 kHz ticks.\<close>

definition pts_90k_of :: "guint64 \<Rightarrow> guint64" where
  "pts_90k_of pts = gst_util_uint64_scale pts 90000 GST_SECOND"

section \<open>FramePacer: \<^verbatim>\<open>feed_frames\<close> of the feeder with keyframe filter and metadata\<close>

text \<open>
  The top of the loop (lines 252 to 266 of the source file of this feeder):
  \<^verbatim>\<open>
  auto expected_time = start_time + frame_counter * frame_duration;
  auto now = clock::now();
  if (now < expected_time) {
      std::this_thread::sleep_until(expected_time);
  } else {
      auto delta = std::chrono::duration_cast<std::chrono::milliseconds>(now - expected_time).count();
      if (delta > FrameIntervalMs) { std::cerr << "[feed] Warning: Behind schedule by " ... }
  }
  \<close>
  \<open>delta\<close> is a whole number of milliseconds and \<^verbatim>\<open>FrameIntervalMs\<close> the
  \<^verbatim>\<open>double\<close> nearest to \<open>1000 / TARGET_FPS\<close>. Rounding a quotient to a
  \<^verbatim>\<open>double\<close> never moves it across a whole number, so \<open>delta > FrameIntervalMs\<close>
  holds exactly when \<open>delta * TARGET_FPS > 1000\<close>; for \<open>TARGET_FPS = 0\<close> the quotient
  is infinite and the comparison false, as the product form gives too. Clock readings and
  the product \<open>frame_counter * frame_duration\<close> are natural numbers of nanoseconds and
  microseconds: the 64-bit range of the chrono representation is not modelled.
\<close>

definition expected_time :: "feed_config \<Rightarrow> feeder \<Rightarrow> nat" where
  "expected_time cfg st = start_time cfg + unat (frame_counter st) * frame_duration cfg * 1000"

definition pace :: "feed_config \<Rightarrow> nat \<Rightarrow> feeder \<Rightarrow> feed_event list" where
  "pace cfg now_ns st =
     (if now_ns < expected_time cfg st then [Sleep_until (expected_time cfg st)]
      else (let delta = (now_ns - expected_time cfg st) div 1000000
            in if delta * unat (TARGET_FPS cfg) > 1000
               then [Warn_behind delta (frame_counter st)] else []))"

text \<open>
  The rest of the loop body (lines 268 to 346). The buffer gets the file index as its
  offset and no timestamps: the assignments of PTS, DTS and duration are commented out in
  this feeder, whose \<^verbatim>\<open>appsrc\<close> is configured with \<^verbatim>\<open>do-timestamp\<close>.
\<close>

definition feed_frames_iter :: "feed_config \<Rightarrow> tick_env \<Rightarrow> feeder \<Rightarrow> feeder outcome \<times> feed_event list" where
  "feed_frames_iter cfg env st =
     (let ev = pace cfg (now env) st in
      case is_file_ready (ready_obs env) of
        Throws \<Rightarrow> (Aborted, ev)
      | Returns False \<Rightarrow> (Continue st, ev @ [Log_not_ready, Sleep_for_ms 100])
      | Returns True \<Rightarrow>
          if \<not> is_iframe (iframe_exists_obs env) (iframe_size_obs env) then
            (case fs_file_size (skip_size_obs env) of
               Throws \<Rightarrow> (Aborted, ev)
             | Returns n \<Rightarrow>
                 (Continue (st\<lparr>current_index := current_index st + 1\<rparr>),
                  ev @ [Log_skip (n div 1024)]))
          else if \<not> open_ok env then
            (Continue st, ev @ [Log_open_failed, Sleep_for_ms 100])
          else
            (case read_result env of
               None \<Rightarrow> (Continue st, ev @ [Log_read_failed, Sleep_for_ms 100])
             | Some bytes \<Rightarrow>
                 if \<not> map_ok env then (Break st, ev @ [Log_map_failed])
                 else
                   (let buffer = (gst_buffer_new_allocate bytes)\<lparr>OFFSET := current_index st\<rparr> in
                    if \<not> push_ok env then (Break st, ev @ [Log_push_failed])
                    else
                      (let ev' = ev @ [Pushed buffer, Log_pushed (frame_counter st)];
                           st' = st\<lparr>frame_counter := frame_counter st + 1,
                                    current_index := current_index st + 1\<rparr>
                       in if TARGET_FPS cfg = 0 then (Aborted, ev')
                          else if frame_counter st' mod ucast (TARGET_FPS cfg) = 0
                          then (Continue st', ev' @ [Log_stats])
                          else (Continue st', ev')))))"

text \<open>
  The loop \<^verbatim>\<open>while (true)\<close> itself, run over the environments of its successive
  passes: it goes on after a pass that ends in \<^verbatim>\<open>continue\<close> or at the end of the
  body, and stops at \<^verbatim>\<open>break\<close> or when the process ends. \<open>Continue st\<close> is the state
  reached when all the given passes have run and the loop is still going.
\<close>

fun feed_frames :: "feed_config \<Rightarrow> tick_env list \<Rightarrow> feeder \<Rightarrow> feeder outcome" where
  "feed_frames cfg [] st = Continue st"
| "feed_frames cfg (env # envs) st =
     (case fst (feed_frames_iter cfg env st) of
        Continue st' \<Rightarrow> feed_frames cfg envs st'
      | Break st' \<Rightarrow> Break st'
      | Aborted \<Rightarrow> Aborted)"

section \<open>\<^verbatim>\<open>feed_frames\<close> of \<^verbatim>\<open>main.cpp\<close>\<close>

text \<open>
  The simpler feeder keeps a static \<^verbatim>\<open>next_frame_time\<close> (initialised with the clock
  reading of its first use) and advances it by the frame interval on every pass; it has no
  keyframe filter, stamps every buffer itself and writes its own three-column log with a
  patterned \<^verbatim>\<open>custom_pts\<close>. \<^verbatim>\<open>increment_index\<close> starts at 0 and is advanced modulo
  the length of \<^verbatim>\<open>increments\<close>, so the index is always in range.
\<close>

record main_feeder = feeder +
  next_frame_time :: nat
  custom_pts :: guint64
  increment_index :: nat
  csv_output :: ofstream

definition increments :: "guint64 list" where
  "increments = [299, 300, 301]"

definition main_feed_frames_iter ::
  "feed_config \<Rightarrow> tick_env \<Rightarrow> main_feeder \<Rightarrow> main_feeder outcome \<times> feed_event list" where
  "main_feed_frames_iter cfg env st0 =
     (let ev = (if now env < next_frame_time st0 then [Sleep_until (next_frame_time st0)] else []);
          st = st0\<lparr>next_frame_time := next_frame_time st0 + frame_duration cfg * 1000\<rparr>
      in
      case is_file_ready (ready_obs env) of
        Throws \<Rightarrow> (Aborted, ev)
      | Returns False \<Rightarrow> (Continue st, ev @ [Log_not_ready, Sleep_for_ms 100])
      | Returns True \<Rightarrow>
          if \<not> open_ok env then (Break st, ev @ [Log_open_failed])
          else
            (case read_result env of
               None \<Rightarrow> (Break st, ev @ [Log_read_failed])
             | Some bytes \<Rightarrow>
                 if \<not> map_ok env then (Break st, ev @ [Log_map_failed])
                 else
                   (let buffer = set_timestamps (TARGET_FPS cfg) (frame_counter st)
                                   (gst_buffer_new_allocate bytes) in
                    if \<not> push_ok env then (Break st, ev @ [Log_push_failed])
                    else
                      (let ev' = ev @ [Pushed buffer, Log_pushed (frame_counter st)];
                           fname = make_frame_filename (camera_prefix cfg) (current_index st);
                           out = (if is_open (csv_output st)
                                  then write_row [dec (unat (frame_counter st)),
                                                  dec (unat (custom_pts st)), fname]
                                         (csv_output st)
                                  else csv_output st);
                           st' = st\<lparr>frame_counter := frame_counter st + 1,
                                    current_index := current_index st + 1,
                                    custom_pts := custom_pts st + increments ! increment_index st,
                                    increment_index := (increment_index st + 1) mod length increments,
                                    csv_output := out\<rparr>
                       in if TARGET_FPS cfg = 0 then (Aborted, ev')
                          else if frame_counter st' mod ucast (TARGET_FPS cfg) = 0
                          then (Continue st', ev' @ [Log_stats])
                          else (Continue st', ev')))))"

section \<open>The pipeline between \<^verbatim>\<open>appsrc\<close> and the probed pad\<close>

text \<open>
  The pipeline is GStreamer's, not this repository's. What the feeder and the probe rely
  on is modelled: every buffer accepted by \<^verbatim>\<open>gst_app_src_push_buffer\<close> reaches the
  source pad of \<^verbatim>\<open>h265parse\<close> once and runs \<^verbatim>\<open>video_probe\<close> there, and nothing else
  does. \<open>probe_info\<close> is the probe info the pad then carries (the PTS the pipeline has
  put on the buffer), \<open>seen_counter\<close> the value of the global \<^verbatim>\<open>frame_counter\<close>
  that the streaming thread reads and \<open>store\<close> the answers of the store at that time.
\<close>

record pipeline_env =
  probe_info :: "guint64 option"
  seen_counter :: guint64
  store :: redis_server

definition run_probes :: "string \<Rightarrow> pipeline_env \<Rightarrow> GstBuffer list \<Rightarrow> probe_state \<Rightarrow> probe_state" where
  "run_probes prefix penv bufs ps =
     fold (\<lambda>b. video_probe prefix (seen_counter penv) (store penv) (probe_info penv)) bufs ps"

definition system_tick ::
  "feed_config \<Rightarrow> tick_env \<Rightarrow> pipeline_env \<Rightarrow> feeder \<times> probe_state
     \<Rightarrow> feeder outcome \<times> feed_event list \<times> probe_state" where
  "system_tick cfg env penv sys =
     (case feed_frames_iter cfg env (fst sys) of
        (out, evs) \<Rightarrow>
          (out, evs, run_probes (camera_prefix cfg) penv (pushed_buffers evs) (snd sys)))"

section \<open>Concrete configurations and inputs\<close>

text \<open>
  A 300 frames-per-second configuration (the interval \<open>1000.0 / 300\<close> ms gives 3333
  whole microseconds), a pass of the loop in which the file is there with a stable size of
  40000 bytes and every later step succeeds, and a state of the simpler feeder.
\<close>
definition ex_cfg :: feed_config where
  "ex_cfg = \<lparr>TARGET_FPS = 300, frame_duration = 3333, start_time = 0,
             camera_prefix = ''camera01''\<rparr>"

definition ex_env :: tick_env where
  "ex_env = \<lparr>now = 0, ready_obs = answers [] (Size 40000), iframe_exists_obs = Size 40000,
             iframe_size_obs = Size 40000, skip_size_obs = Size 40000, open_ok = True,
             read_result = Some [0, 0, 1], map_ok = True, push_ok = True\<rparr>"

definition ex_main_feeder :: "guint64 \<Rightarrow> main_feeder" where
  "ex_main_feeder n = \<lparr>frame_counter = n, current_index = n, next_frame_time = 0,
             custom_pts = 324000000, increment_index = 0,
             csv_output = \<lparr>is_open = True, rows = []\<rparr>\<rparr>"

definition ex_feeder :: "guint64 \<Rightarrow> guint64 \<Rightarrow> feeder" where
  "ex_feeder n i = \<lparr>frame_counter = n, current_index = i\<rparr>"

text \<open>The same pass with a file of 100 bytes, below the keyframe threshold.\<close>

definition ex_env_small :: tick_env where
  "ex_env_small = \<lparr>now = 0, ready_obs = answers [] (Size 100), iframe_exists_obs = Size 100,
             iframe_size_obs = Size 100, skip_size_obs = Size 100, open_ok = True,
             read_result = Some [0, 0, 1], map_ok = True, push_ok = True\<rparr>"

text \<open>
  Probe data as \<^verbatim>\<open>main\<close> sets it up, with both logs open; a store that has no key, a
  store whose every value is \<^verbatim>\<open>{}\<close>, and a store whose every value is
  \<^verbatim>\<open>{"ball":0,"innings":0,"over":0}\<close>.
\<close>

definition ex_pdata :: "redisContext option \<Rightarrow> ProbeData" where
  "ex_pdata r = \<lparr>csv = \<lparr>is_open = True, rows = []\<rparr>,
                  csv_summary = \<lparr>is_open = True, rows = []\<rparr>, redis = r\<rparr>"

definition ex_server_nil :: redis_server where
  "ex_server_nil = (\<lambda>k. Some REDIS_REPLY_OTHER)"

definition ex_server_empty_object :: redis_server where
  "ex_server_empty_object = (\<lambda>k. Some (REDIS_REPLY_STRING ''{}''))"

definition ex_json_zero :: string where
  "ex_json_zero = ''{'' @ [CHR 0x22] @ ''ball'' @ [CHR 0x22] @ '':0,'' @ [CHR 0x22]
       @ ''innings'' @ [CHR 0x22] @ '':0,'' @ [CHR 0x22] @ ''over'' @ [CHR 0x22] @ '':0}''"

definition ex_server_zero :: redis_server where
  "ex_server_zero = (\<lambda>k. Some (REDIS_REPLY_STRING ex_json_zero))"

section \<open>Auxiliary facts\<close>

lemma unat_ucast_fps: "unat (ucast (f :: guint) :: guint64) = unat f"
proof -
  have "unat f < 2 ^ 32" using unsigned_less [of f] by simp
  then have "unat f < 2 ^ 64" by simp
  then show ?thesis by (simp add: unsigned_ucast_eq take_bit_nat_eq_self)
qed

lemma ucast_fps_eq_0: "(ucast (f :: guint) :: guint64) = 0 \<longleftrightarrow> f = 0"
  by (metis unat_ucast_fps unat_eq_zero)

lemma scale_exact:
  assumes "denom \<noteq> 0" and "unat val * unat num div unat denom \<le> unat G_MAXUINT64"
  shows "unat (gst_util_uint64_scale val num denom) = unat val * unat num div unat denom"
proof -
  have "unat val * unat num div unat denom < 2 ^ 64"
    using assms(2) by (simp add: G_MAXUINT64_def)
  then have "unat (of_nat (unat val * unat num div unat denom) :: guint64)
             = unat val * unat num div unat denom"
    by (simp add: unat_of_nat)
  with assms show ?thesis
    by (simp add: gst_util_uint64_scale_def)
qed

lemma unat_GST_SECOND: "unat GST_SECOND = 1000000000"
  by (simp add: GST_SECOND_def)

lemma frame_pts_exact:
  assumes "(fps :: guint) \<noteq> 0" and "unat n * 1000000000 div unat fps \<le> unat G_MAXUINT64"
  shows "unat (gst_util_uint64_scale n GST_SECOND (ucast fps)) = unat n * 1000000000 div unat fps"
  using assms scale_exact [of "ucast fps" n GST_SECOND]
  by (simp add: unat_GST_SECOND unat_ucast_fps ucast_fps_eq_0)

lemma frame_duration_exact:
  assumes "(fps :: guint) \<noteq> 0"
  shows "unat (gst_util_uint64_scale 1 GST_SECOND (ucast fps)) = 1000000000 div unat (fps :: guint)"
proof -
  have "(1000000000::nat) div unat fps \<le> 1000000000" by (rule div_le_dividend)
  also have "(1000000000::nat) \<le> 18446744073709551615" by simp
  finally have "unat (1 :: guint64) * unat GST_SECOND div unat (ucast fps :: guint64) \<le> unat G_MAXUINT64"
    by (simp add: unat_GST_SECOND unat_ucast_fps G_MAXUINT64_def)
  from scale_exact [OF _ this] assms show ?thesis
    by (simp add: unat_GST_SECOND unat_ucast_fps ucast_fps_eq_0)
qed

lemma step_nat:
  fixes n g f :: nat
  assumes "0 < f"
  shows "(n + 1) * g div f - n * g div f = g div f
       \<or> (n + 1) * g div f - n * g div f = g div f + 1"
proof -
  define q where "q = (n * g mod f + g mod f) div f"
  have s: "(n + 1) * g = n * g + g" by simp
  have e: "(n + 1) * g div f = n * g div f + g div f + q"
    unfolding q_def s by (rule div_add1_eq)
  have "n * g mod f < f" and "g mod f < f"
    using assms by simp_all
  then have "n * g mod f + g mod f < f + f" by (rule add_strict_mono)
  then have "n * g mod f + g mod f < 2 * f" by (simp only: mult_2)
  then have "q < 2"
    unfolding q_def by (rule less_mult_imp_div_less)
  then have "q = 0 \<or> q = 1" by (cases q) auto
  then show ?thesis unfolding e by auto
qed

lemma step_nat_dvd:
  fixes n g f :: nat
  assumes "0 < f" and "f dvd g"
  shows "(n + 1) * g div f - n * g div f = g div f"
proof -
  from assms(2) obtain k where g: "g = k * f" by (auto simp: dvd_def mult.commute)
  have a: "(n + 1) * g div f = (n + 1) * k"
    unfolding g mult.assoc [symmetric] using assms(1) by (rule div_mult_self_is_m)
  have b: "n * g div f = n * k"
    unfolding g mult.assoc [symmetric] using assms(1) by (rule div_mult_self_is_m)
  have c: "g div f = k"
    unfolding g using assms(1) by (rule div_mult_self_is_m)
  show ?thesis unfolding a b c by simp
qed

lemma pushed_buffers_append:
  "pushed_buffers (xs @ ys) = pushed_buffers xs @ pushed_buffers ys"
  by (induction xs rule: pushed_buffers.induct) simp_all

lemma pushed_buffers_pace: "pushed_buffers (pace cfg t st) = []"
  by (simp add: pace_def Let_def)

lemma main_pushed:
  "pushed_buffers (snd (main_feed_frames_iter cfg env st)) =
     (case read_result env of
        Some bytes \<Rightarrow>
          if is_file_ready (ready_obs env) = Returns True \<and> open_ok env \<and> map_ok env \<and> push_ok env
          then [set_timestamps (TARGET_FPS cfg) (frame_counter st) (gst_buffer_new_allocate bytes)]
          else []
      | None \<Rightarrow> [])"
  by (simp add: main_feed_frames_iter_def Let_def pushed_buffers_append
      split: res.split bool.split option.split)

lemma main_pushed_now:
  "pushed_buffers (snd (main_feed_frames_iter cfg (env\<lparr>now := t\<rparr>) st)) =
   pushed_buffers (snd (main_feed_frames_iter cfg env st))"
  by (simp add: main_pushed split: option.split)

lemma feed_pushed:
  "pushed_buffers (snd (feed_frames_iter cfg env st)) =
     (case read_result env of
        Some bytes \<Rightarrow>
          if is_file_ready (ready_obs env) = Returns True
             \<and> is_iframe (iframe_exists_obs env) (iframe_size_obs env)
             \<and> open_ok env \<and> map_ok env \<and> push_ok env
          then [(gst_buffer_new_allocate bytes)\<lparr>OFFSET := current_index st\<rparr>]
          else []
      | None \<Rightarrow> [])"
  by (simp add: feed_frames_iter_def Let_def pushed_buffers_append pushed_buffers_pace
      split: res.split bool.split option.split)


lemma ex_ready: "is_file_ready (answers [] (Size n)) = Returns True"
  by (simp add: is_file_ready_def is_file_ready_n_def is_file_ready_loop.simps answers_def
      fs_exists_def fs_file_size_def)

section \<open>Claims about timestamps\<close>

text \<open>
  The two feeders differ on timestamps. The feeder of \<^verbatim>\<open>main.cpp\<close> stamps each buffer
  from the frame counter (\<open>main_pushed\<close> above). The feeder with the keyframe filter
  pushes its buffers unstamped, with the file index as offset, and leaves the timestamps to
  \<^verbatim>\<open>appsrc\<close>:
\<close>

lemma feed_pushed_unstamped:
  assumes "b \<in> set (pushed_buffers (snd (feed_frames_iter cfg env st)))"
  shows "PTS b = GST_CLOCK_TIME_NONE \<and> DTS b = GST_CLOCK_TIME_NONE
       \<and> DURATION b = GST_CLOCK_TIME_NONE \<and> OFFSET b = current_index st"
  using assms
  by (auto simp: feed_pushed gst_buffer_new_allocate_def split: option.splits if_splits)

text \<open>
  What the feeder of \<^verbatim>\<open>main.cpp\<close> attaches to every buffer it pushes, for a frame rate
  other than zero and a frame counter whose PTS fits the 64 bits of a
  \<^verbatim>\<open>GstClockTime\<close>; the clock reading of the pass plays no part.
\<close>

lemma main_pushed_timestamps:
  assumes "b \<in> set (pushed_buffers (snd (main_feed_frames_iter cfg env st)))"
    and "TARGET_FPS cfg \<noteq> 0"
    and "unat (frame_counter st) * 1000000000 div unat (TARGET_FPS cfg) \<le> unat G_MAXUINT64"
  shows "unat (PTS b) = unat (frame_counter st) * 1000000000 div unat (TARGET_FPS cfg)
       \<and> DTS b = PTS b
       \<and> unat (DURATION b) = 1000000000 div unat (TARGET_FPS cfg)
       \<and> (TARGET_FPS cfg = 300 \<and> frame_counter st = 0 \<longrightarrow> PTS b = 0)
       \<and> (TARGET_FPS cfg = 300 \<and> frame_counter st = 300 \<longrightarrow>
            PTS b = 1000000000)
       \<and> b \<in> set (pushed_buffers (snd (main_feed_frames_iter cfg (env\<lparr>now := t\<rparr>) st)))"
proof -
  from assms(1) obtain bytes where
    b: "b = set_timestamps (TARGET_FPS cfg) (frame_counter st) (gst_buffer_new_allocate bytes)"
    by (auto simp: main_pushed split: option.splits if_splits)
  have pts: "PTS b = gst_util_uint64_scale (frame_counter st) GST_SECOND (ucast (TARGET_FPS cfg))"
    and dts: "DTS b = PTS b"
    and dur: "DURATION b = gst_util_uint64_scale 1 GST_SECOND (ucast (TARGET_FPS cfg))"
    by (simp_all add: b set_timestamps_def Let_def)
  have 1: "unat (PTS b) = unat (frame_counter st) * 1000000000 div unat (TARGET_FPS cfg)"
    unfolding pts using assms(2,3) by (rule frame_pts_exact)
  have 2: "unat (DURATION b) = 1000000000 div unat (TARGET_FPS cfg)"
    unfolding dur using assms(2) by (rule frame_duration_exact)
  have 3: "TARGET_FPS cfg = 300 \<and> frame_counter st = 0 \<longrightarrow> PTS b = 0"
    by (simp add: pts pts_90k_of_def gst_util_uint64_scale_def GST_SECOND_def G_MAXUINT64_def)
  have 4: "TARGET_FPS cfg = 300 \<and> frame_counter st = 300 \<longrightarrow>
            PTS b = 1000000000"
    by (simp add: pts pts_90k_of_def gst_util_uint64_scale_def GST_SECOND_def G_MAXUINT64_def)
  have 5: "b \<in> set (pushed_buffers (snd (main_feed_frames_iter cfg (env\<lparr>now := t\<rparr>) st)))"
    using assms(1) by (simp only: main_pushed_now)
  from 1 dts 2 3 4 5 show ?thesis by blast
qed

text \<open>
  C1 as stated: for every emitted frame the PTS attached to the buffer is
  frame\_counter * 1e9 / F, so that at F = 300 the frame with frame\_counter 300 carries
  1,000,000,000 ns. The feeder with the keyframe filter, at F = 300 and frame\_counter 300,
  pushes the buffer of a ready keyframe with no PTS at all
  (\<^verbatim>\<open>GST_CLOCK_TIME_NONE\<close>): its assignments of PTS, DTS and duration are commented
  out and its \<^verbatim>\<open>appsrc\<close> stamps the buffers (\<^verbatim>\<open>do-timestamp\<close>).
\<close>

theorem C1_counterexample:
  "pushed_buffers (snd (feed_frames_iter ex_cfg ex_env (ex_feeder 300 300)))
     = [(gst_buffer_new_allocate [0, 0, 1])\<lparr>OFFSET := 300\<rparr>]
   \<and> TARGET_FPS ex_cfg = 300
   \<and> frame_counter (ex_feeder 300 300) = 300
   \<and> PTS ((gst_buffer_new_allocate [0, 0, 1])\<lparr>OFFSET := 300\<rparr>) = GST_CLOCK_TIME_NONE
   \<and> GST_CLOCK_TIME_NONE \<noteq> (1000000000 :: guint64)"
  by (simp add: feed_pushed ex_env_def ex_ready is_iframe_def fs_exists_def fs_file_size_def
      IFRAME_MIN_SIZE_def ex_feeder_def ex_cfg_def gst_buffer_new_allocate_def
      GST_CLOCK_TIME_NONE_def)

text \<open>
  C1, amended. The two feeders differ. Every buffer that the feeder of \<^verbatim>\<open>main.cpp\<close>
  pushes carries PTS = frame\_counter * 1e9 / F nanoseconds (integer scaling, truncated),
  DTS = PTS and duration 1e9 / F, for every frame rate F other than zero and every frame
  counter whose PTS fits the 64 bits of a \<^verbatim>\<open>GstClockTime\<close>; with F = 300, frame 0
  carries PTS 0 and frame 300 carries PTS 1,000,000,000 ns; the same buffer is pushed
  whatever the clock reads. Every buffer that the feeder with the keyframe filter pushes
  carries no PTS, no DTS and no duration, and the file index as its offset. The conversion
  that the probe of that feeder applies to the PTS it finds on a buffer maps 0 ns to 0
  ticks and 1,000,000,000 ns to 90,000 ticks at 90 kHz.
\<close>

theorem C1_timestamps_per_feeder:
  "(b \<in> set (pushed_buffers (snd (main_feed_frames_iter cfg env mst)))
     \<and> TARGET_FPS cfg \<noteq> 0
     \<and> unat (frame_counter mst) * 1000000000 div unat (TARGET_FPS cfg) \<le> unat G_MAXUINT64
    \<longrightarrow>
      unat (PTS b) = unat (frame_counter mst) * 1000000000 div unat (TARGET_FPS cfg)
      \<and> DTS b = PTS b
      \<and> unat (DURATION b) = 1000000000 div unat (TARGET_FPS cfg)
      \<and> (TARGET_FPS cfg = 300 \<and> frame_counter mst = 0 \<longrightarrow> PTS b = 0)
      \<and> (TARGET_FPS cfg = 300 \<and> frame_counter mst = 300 \<longrightarrow> PTS b = 1000000000)
      \<and> b \<in> set (pushed_buffers (snd (main_feed_frames_iter cfg (env\<lparr>now := t\<rparr>) mst))))
   \<and> (b' \<in> set (pushed_buffers (snd (feed_frames_iter cfg env st))) \<longrightarrow>
        PTS b' = GST_CLOCK_TIME_NONE \<and> DTS b' = GST_CLOCK_TIME_NONE
        \<and> DURATION b' = GST_CLOCK_TIME_NONE \<and> OFFSET b' = current_index st)
   \<and> pts_90k_of 0 = 0
   \<and> pts_90k_of 1000000000 = 90000"
proof -
  have m: "b \<in> set (pushed_buffers (snd (main_feed_frames_iter cfg env mst)))
     \<and> TARGET_FPS cfg \<noteq> 0
     \<and> unat (frame_counter mst) * 1000000000 div unat (TARGET_FPS cfg) \<le> unat G_MAXUINT64
    \<longrightarrow>
      unat (PTS b) = unat (frame_counter mst) * 1000000000 div unat (TARGET_FPS cfg)
      \<and> DTS b = PTS b
      \<and> unat (DURATION b) = 1000000000 div unat (TARGET_FPS cfg)
      \<and> (TARGET_FPS cfg = 300 \<and> frame_counter mst = 0 \<longrightarrow> PTS b = 0)
      \<and> (TARGET_FPS cfg = 300 \<and> frame_counter mst = 300 \<longrightarrow> PTS b = 1000000000)
      \<and> b \<in> set (pushed_buffers (snd (main_feed_frames_iter cfg (env\<lparr>now := t\<rparr>) mst)))"
  proof
    assume h: "b \<in> set (pushed_buffers (snd (main_feed_frames_iter cfg env mst)))
     \<and> TARGET_FPS cfg \<noteq> 0
     \<and> unat (frame_counter mst) * 1000000000 div unat (TARGET_FPS cfg) \<le> unat G_MAXUINT64"
    then have h1: "b \<in> set (pushed_buffers (snd (main_feed_frames_iter cfg env mst)))"
      and h2: "TARGET_FPS cfg \<noteq> 0"
      and h3: "unat (frame_counter mst) * 1000000000 div unat (TARGET_FPS cfg) \<le> unat G_MAXUINT64"
      by blast+
    show "unat (PTS b) = unat (frame_counter mst) * 1000000000 div unat (TARGET_FPS cfg)
      \<and> DTS b = PTS b
      \<and> unat (DURATION b) = 1000000000 div unat (TARGET_FPS cfg)
      \<and> (TARGET_FPS cfg = 300 \<and> frame_counter mst = 0 \<longrightarrow> PTS b = 0)
      \<and> (TARGET_FPS cfg = 300 \<and> frame_counter mst = 300 \<longrightarrow> PTS b = 1000000000)
      \<and> b \<in> set (pushed_buffers (snd (main_feed_frames_iter cfg (env\<lparr>now := t\<rparr>) mst)))"
      using h1 h2 h3 by (rule main_pushed_timestamps)
  qed
  have f: "b' \<in> set (pushed_buffers (snd (feed_frames_iter cfg env st))) \<longrightarrow>
        PTS b' = GST_CLOCK_TIME_NONE \<and> DTS b' = GST_CLOCK_TIME_NONE
        \<and> DURATION b' = GST_CLOCK_TIME_NONE \<and> OFFSET b' = current_index st"
    by (rule impI) (rule feed_pushed_unstamped)
  have k: "pts_90k_of 0 = 0" "pts_90k_of 1000000000 = 90000"
    by (simp_all add: pts_90k_of_def gst_util_uint64_scale_def GST_SECOND_def G_MAXUINT64_def)
  from m f k show ?thesis by blast
qed

text \<open>
  Witness for C1: frame 300 at 300 frames per second, in a pass where the file is a ready
  keyframe, for each of the two feeders.
\<close>

theorem C1_witness:
  "set_timestamps 300 300 (gst_buffer_new_allocate [0, 0, 1])
     \<in> set (pushed_buffers (snd (main_feed_frames_iter ex_cfg ex_env (ex_main_feeder 300))))
   \<and> TARGET_FPS ex_cfg \<noteq> 0
   \<and> unat (frame_counter (ex_main_feeder 300)) * 1000000000 div unat (TARGET_FPS ex_cfg)
       \<le> unat G_MAXUINT64
   \<and> PTS (set_timestamps 300 300 (gst_buffer_new_allocate [0, 0, 1])) = 1000000000
   \<and> DTS (set_timestamps 300 300 (gst_buffer_new_allocate [0, 0, 1])) = 1000000000
   \<and> unat (DURATION (set_timestamps 300 300 (gst_buffer_new_allocate [0, 0, 1]))) = 3333333
   \<and> (gst_buffer_new_allocate [0, 0, 1])\<lparr>OFFSET := 300\<rparr>
       \<in> set (pushed_buffers (snd (feed_frames_iter ex_cfg ex_env (ex_feeder 300 300))))
   \<and> PTS ((gst_buffer_new_allocate [0, 0, 1])\<lparr>OFFSET := 300\<rparr>) = GST_CLOCK_TIME_NONE"
proof -
  let ?b = "set_timestamps 300 300 (gst_buffer_new_allocate [0, 0, 1])"
  let ?b' = "(gst_buffer_new_allocate [0, 0, 1])\<lparr>OFFSET := 300\<rparr>"
  have h1: "?b \<in> set (pushed_buffers (snd (main_feed_frames_iter ex_cfg ex_env (ex_main_feeder 300))))"
    by (simp add: main_pushed ex_cfg_def ex_env_def ex_main_feeder_def ex_ready)
  have h2: "TARGET_FPS ex_cfg \<noteq> 0" by (simp add: ex_cfg_def)
  have h3: "unat (frame_counter (ex_main_feeder 300)) * 1000000000 div unat (TARGET_FPS ex_cfg)
       \<le> unat G_MAXUINT64"
    by (simp add: ex_cfg_def ex_main_feeder_def G_MAXUINT64_def)
  have h4: "?b' \<in> set (pushed_buffers (snd (feed_frames_iter ex_cfg ex_env (ex_feeder 300 300))))"
    by (simp add: feed_pushed ex_env_def ex_ready is_iframe_def fs_exists_def fs_file_size_def
        IFRAME_MIN_SIZE_def ex_feeder_def)
  have e: "TARGET_FPS ex_cfg = 300" "frame_counter (ex_main_feeder 300) = 300"
    by (simp_all add: ex_cfg_def ex_main_feeder_def)
  note t = C1_timestamps_per_feeder [where b = ?b and cfg = ex_cfg and env = ex_env
      and mst = "ex_main_feeder 300" and t = 0 and b' = ?b' and st = "ex_feeder 300 300"]
  from t h1 h2 h3 e have p: "PTS ?b = 1000000000" and d: "DTS ?b = PTS ?b"
    and u: "unat (DURATION ?b) = 1000000000 div unat (TARGET_FPS ex_cfg)"
    by blast+
  from t h4 have n: "PTS ?b' = GST_CLOCK_TIME_NONE" by blast
  from u have u': "unat (DURATION ?b) = 3333333" by (simp add: e)
  from d p have d': "DTS ?b = 1000000000" by simp
  from h1 h2 h3 p d' u' h4 n show ?thesis by blast
qed

text \<open>
  C2 as stated: for every n the difference PTS(n+1) - PTS(n) equals the duration attached
  to the buffers, for every frame rate. At 300 frames per second it fails between frames 2
  and 3: the timestamps are 6,666,666 and 10,000,000 ns, 3,333,334 apart, and the duration
  is 3,333,333 ns.
\<close>

theorem C2_counterexample:
  "PTS (set_timestamps 300 3 (gst_buffer_new_allocate [])) -
   PTS (set_timestamps 300 2 (gst_buffer_new_allocate []))
   \<noteq> DURATION (set_timestamps 300 2 (gst_buffer_new_allocate []))"
  by (simp add: set_timestamps_def gst_util_uint64_scale_def GST_SECOND_def G_MAXUINT64_def)

text \<open>
  C2, amended. For every frame rate other than zero and every n whose successor's PTS fits
  64 bits, PTS(n+1) - PTS(n) is the duration attached to the buffers or one nanosecond
  more; it is the duration exactly whenever the frame rate divides 1e9.
\<close>

theorem C2_pts_step_is_duration_or_one_more:
  assumes "fps \<noteq> 0"
    and "(unat n + 1) * 1000000000 div unat fps \<le> unat G_MAXUINT64"
    and "n \<noteq> G_MAXUINT64"
  shows "(PTS (set_timestamps fps (n + 1) b') - PTS (set_timestamps fps n b) =
            DURATION (set_timestamps fps n b)
          \<or> PTS (set_timestamps fps (n + 1) b') - PTS (set_timestamps fps n b) =
            DURATION (set_timestamps fps n b) + 1)
       \<and> (unat fps dvd 1000000000 \<longrightarrow>
            PTS (set_timestamps fps (n + 1) b') - PTS (set_timestamps fps n b) =
            DURATION (set_timestamps fps n b))"
proof -
  let ?f = "unat fps" and ?g = "1000000000 :: nat"
  have f0: "0 < ?f" using assms(1) by (simp add: unat_gt_0)
  have "n + 1 \<noteq> 0"
  proof
    assume "n + 1 = 0"
    then have "n = - 1" by (rule max_word_wrap)
    with assms(3) show False by (simp add: G_MAXUINT64_def)
  qed
  then have n1: "unat (n + 1) = unat n + 1"
    using unatSuc [of n] by (simp add: add.commute)
  have le: "unat n * ?g div ?f \<le> (unat n + 1) * ?g div ?f"
    by (rule div_le_mono) simp
  have p0: "unat (PTS (set_timestamps fps n b)) = unat n * ?g div ?f"
    using frame_pts_exact [OF assms(1), of n] le assms(2)
    by (simp add: set_timestamps_def Let_def)
  have p1: "unat (PTS (set_timestamps fps (n + 1) b')) = (unat n + 1) * ?g div ?f"
    using frame_pts_exact [OF assms(1), of "n + 1"] assms(2)
    by (simp add: set_timestamps_def Let_def n1)
  have d: "unat (DURATION (set_timestamps fps n b)) = ?g div ?f"
    using frame_duration_exact [OF assms(1)] by (simp add: set_timestamps_def Let_def)
  have ord: "PTS (set_timestamps fps n b) \<le> PTS (set_timestamps fps (n + 1) b')"
    using le by (simp add: word_le_nat_alt p0 p1)
  have diff: "unat (PTS (set_timestamps fps (n + 1) b') - PTS (set_timestamps fps n b))
        = (unat n + 1) * ?g div ?f - unat n * ?g div ?f"
    by (simp add: unat_sub [OF ord] p0 p1)
  have d1: "unat (DURATION (set_timestamps fps n b) + 1) = ?g div ?f + 1"
  proof -
    have "?g div ?f \<le> ?g" by (rule div_le_dividend)
    also have "?g < 18446744073709551615" by simp
    finally have "unat (DURATION (set_timestamps fps n b)) + unat (1 :: guint64) < 2 ^ LENGTH(64)"
      by (simp add: d)
    then have "unat (DURATION (set_timestamps fps n b) + 1)
                 = unat (DURATION (set_timestamps fps n b)) + unat (1 :: guint64)"
      by (rule unat_add_lem [THEN iffD1])
    then show ?thesis by (simp add: d)
  qed
  have A: "PTS (set_timestamps fps (n + 1) b') - PTS (set_timestamps fps n b) =
            DURATION (set_timestamps fps n b)
          \<or> PTS (set_timestamps fps (n + 1) b') - PTS (set_timestamps fps n b) =
            DURATION (set_timestamps fps n b) + 1"
  proof -
    from step_nat [OF f0, of "unat n" ?g] diff d d1
    have "unat (PTS (set_timestamps fps (n + 1) b') - PTS (set_timestamps fps n b))
            = unat (DURATION (set_timestamps fps n b))
        \<or> unat (PTS (set_timestamps fps (n + 1) b') - PTS (set_timestamps fps n b))
            = unat (DURATION (set_timestamps fps n b) + 1)"
      by simp
    then show ?thesis by (simp only: word_unat_eq_iff)
  qed
  have B: "unat fps dvd 1000000000 \<longrightarrow>
            PTS (set_timestamps fps (n + 1) b') - PTS (set_timestamps fps n b) =
            DURATION (set_timestamps fps n b)"
  proof
    assume "unat fps dvd 1000000000"
    from step_nat_dvd [OF f0 this, of "unat n"] diff d
    have "unat (PTS (set_timestamps fps (n + 1) b') - PTS (set_timestamps fps n b))
            = unat (DURATION (set_timestamps fps n b))"
      by simp
    then show "PTS (set_timestamps fps (n + 1) b') - PTS (set_timestamps fps n b) =
            DURATION (set_timestamps fps n b)" by (simp only: word_unat_eq_iff)
  qed
  from A B show ?thesis by blast
qed

text \<open>Witness for C2: frames 2 and 3 at 300 frames per second.\<close>

theorem C2_witness:
  "(300 :: guint) \<noteq> 0
   \<and> (unat (2 :: guint64) + 1) * 1000000000 div unat (300 :: guint) \<le> unat G_MAXUINT64
   \<and> (2 :: guint64) \<noteq> G_MAXUINT64
   \<and> (PTS (set_timestamps 300 (2 + 1) (gst_buffer_new_allocate []))
        - PTS (set_timestamps 300 2 (gst_buffer_new_allocate []))
        = DURATION (set_timestamps 300 2 (gst_buffer_new_allocate []))
      \<or> PTS (set_timestamps 300 (2 + 1) (gst_buffer_new_allocate []))
        - PTS (set_timestamps 300 2 (gst_buffer_new_allocate []))
        = DURATION (set_timestamps 300 2 (gst_buffer_new_allocate [])) + 1)"
proof -
  have h1: "(300 :: guint) \<noteq> 0" by simp
  have h2: "(unat (2 :: guint64) + 1) * 1000000000 div unat (300 :: guint) \<le> unat G_MAXUINT64"
    by (simp add: G_MAXUINT64_def)
  have h3: "(2 :: guint64) \<noteq> G_MAXUINT64" by (simp add: G_MAXUINT64_def)
  from C2_pts_step_is_duration_or_one_more [OF h1 h2 h3] h1 h2 h3 show ?thesis
    by blast
qed

section \<open>Claims about the readiness probe\<close>

text \<open>
  What the probe does when no file-system call throws: it answers not-ready for a file
  that is absent at the first check, it answers ready only after two consecutive size
  samples (calls \<open>2 * j + 1\<close> and \<open>2 * j + 3\<close>, one \<open>delay_ms\<close> sleep apart) were
  equal, and it answers not-ready when every sample differs from the one before it.
\<close>


lemma is_file_ready_absent: "obs 0 = Missing \<Longrightarrow> is_file_ready_n obs m = Returns False"
  by (simp add: is_file_ready_n_def fs_exists_def)

lemma is_file_ready_loop_True:
  "is_file_ready_loop obs m i l0 = Returns True \<Longrightarrow>
   \<exists>j s. i \<le> j \<and> j < m \<and> fs_file_size (obs (2 * j + 3)) = Returns s
      \<and> (if j = i then l0 = s else fs_file_size (obs (2 * j + 1)) = Returns s)"
proof (induction obs m i l0 rule: is_file_ready_loop.induct)
  case (1 obs m i l0)
  from "1.prems" have im: "i < m" and ex: "fs_exists (obs (2 * i + 2))"
    by (auto simp: is_file_ready_loop.simps [of obs m i l0] split: if_splits)
  from "1.prems" im ex obtain n where n: "fs_file_size (obs (2 * i + 3)) = Returns n"
    by (cases "fs_file_size (obs (2 * i + 3))")
       (auto simp: is_file_ready_loop.simps [of obs m i l0])
  show ?case
  proof (cases "n = l0")
    case True
    with n im show ?thesis by (intro exI [of _ i] exI [of _ n]) simp
  next
    case False
    with "1.prems" im ex n have r: "is_file_ready_loop obs m (i + 1) n = Returns True"
      by (simp add: is_file_ready_loop.simps [of obs m i l0])
    from "1.IH" [OF im _ n False r] ex
    obtain j s where j: "i + 1 \<le> j" "j < m" "fs_file_size (obs (2 * j + 3)) = Returns s"
      "if j = i + 1 then n = s else fs_file_size (obs (2 * j + 1)) = Returns s"
      by auto
    have "fs_file_size (obs (2 * j + 1)) = Returns s"
    proof (cases "j = i + 1")
      case True
      then have eq: "2 * j + 1 = 2 * i + 3" by simp
      from j(4) True have "n = s" by simp
      with n show ?thesis by (simp only: eq)
    next
      case False
      with j(4) show ?thesis by simp
    qed
    with j show ?thesis by (intro exI [of _ j] exI [of _ s]) simp
  qed
qed

lemma is_file_ready_only_if_stable:
  assumes "is_file_ready_n obs m = Returns True"
  shows "\<exists>j s. j < m \<and> fs_file_size (obs (2 * j + 1)) = Returns s
            \<and> fs_file_size (obs (2 * j + 3)) = Returns s"
proof -
  from assms obtain l0 where l0: "fs_file_size (obs 1) = Returns l0"
    and r: "is_file_ready_loop obs m 0 l0 = Returns True"
    by (cases "fs_file_size (obs 1)") (auto simp: is_file_ready_n_def split: if_splits)
  from is_file_ready_loop_True [OF r]
  obtain j s where j: "j < m" "fs_file_size (obs (2 * j + 3)) = Returns s"
    "if j = 0 then l0 = s else fs_file_size (obs (2 * j + 1)) = Returns s"
    by auto
  have "fs_file_size (obs (2 * j + 1)) = Returns s"
    using j(3) l0 by (cases "j = 0") simp_all
  with j show ?thesis by blast
qed

lemma is_file_ready_loop_growing:
  assumes "\<And>k. obs k = Size (sz k)"
    and "\<And>j. j < m \<Longrightarrow> sz (2 * j + 3) \<noteq> sz (2 * j + 1)"
  shows "is_file_ready_loop obs m i (sz (2 * i + 1)) = Returns False"
proof (induction "m - i" arbitrary: i)
  case 0
  then show ?case by (simp add: is_file_ready_loop.simps [of obs m i])
next
  case (Suc d)
  then have im: "i < m" and d: "d = m - (i + 1)" by simp_all
  have e: "2 * (i + 1) + 1 = 2 * i + 3" by simp
  from Suc.hyps(1) [OF d] have "is_file_ready_loop obs m (i + 1) (sz (2 * i + 3)) = Returns False"
    by (simp only: e)
  with im assms(2) [OF im] show ?case
    by (simp add: is_file_ready_loop.simps [of obs m i] assms(1) fs_exists_def fs_file_size_def)
qed

lemma is_file_ready_growing:
  assumes "\<And>k. obs k = Size (sz k)"
    and "\<And>j. j < m \<Longrightarrow> sz (2 * j + 3) \<noteq> sz (2 * j + 1)"
  shows "is_file_ready_n obs m = Returns False"
proof -
  have "is_file_ready_loop obs m 0 (sz (2 * 0 + 1)) = Returns False"
    using assms by (rule is_file_ready_loop_growing [where obs = obs and sz = sz])
  then show ?thesis
    by (simp add: is_file_ready_n_def assms(1) fs_exists_def fs_file_size_def)
qed

text \<open>
  C4. The readiness probe reports not-ready, never an error, when the file does not exist
  or disappears mid-check. The code misses one case: a file that is present at an
  \<^verbatim>\<open>fs::exists\<close> call and removed before the \<^verbatim>\<open>fs::file_size\<close> call that follows
  it. Here the file (10 bytes) is seen by the first \<^verbatim>\<open>exists\<close> and is gone afterwards:
  \<^verbatim>\<open>file_size\<close> throws and nothing in \<^verbatim>\<open>is_file_ready\<close> catches it, whereas
  \<^verbatim>\<open>is_iframe\<close>, which makes the same pair of calls inside \<^verbatim>\<open>try/catch\<close>, answers
  false on the same two observations.
\<close>

theorem C4_is_file_ready_throws_when_file_vanishes:
  "is_file_ready (answers [Size 10] Missing) = Throws
   \<and> is_iframe (Size 10) Missing = False"
  by (simp add: is_file_ready_def is_file_ready_n_def answers_def fs_exists_def
      fs_file_size_def is_iframe_def)

section \<open>Claims about the keyframe filter\<close>


lemma is_iframe_Size: "is_iframe (Size s) (Size s) \<longleftrightarrow> IFRAME_MIN_SIZE \<le> s"
  by (simp add: is_iframe_def fs_exists_def fs_file_size_def)

lemma run_probes_Nil: "run_probes prefix penv [] ps = ps"
  by (simp add: run_probes_def)

lemma feed_skip:
  assumes "is_file_ready (ready_obs env) = Returns True"
    and "\<not> is_iframe (iframe_exists_obs env) (iframe_size_obs env)"
    and "skip_size_obs env = Size s"
  shows "feed_frames_iter cfg env st =
           (Continue (st\<lparr>current_index := current_index st + 1\<rparr>),
            pace cfg (now env) st @ [Log_skip (s div 1024)])"
  using assms by (simp add: feed_frames_iter_def Let_def fs_file_size_def)

text \<open>
  What holds for a ready frame file that is still there, with size \<open>s\<close>, when it is
  classified and when the skip is reported: it is classified a keyframe if and only if
  \<open>s\<close> is at least 30 * 1024 bytes, and when it is not, the loop continues with
  current\_index advanced by one and frame\_counter unchanged, nothing is pushed and the
  probe state is untouched (no key sent to the store, no row in either log).
\<close>

lemma small_ready_file_is_skipped:
  assumes "is_file_ready (ready_obs env) = Returns True"
    and "iframe_exists_obs env = Size s"
    and "iframe_size_obs env = Size s"
    and "skip_size_obs env = Size s"
  shows "(is_iframe (iframe_exists_obs env) (iframe_size_obs env) \<longleftrightarrow> 30 * 1024 \<le> s)
       \<and> (\<not> is_iframe (iframe_exists_obs env) (iframe_size_obs env) \<longrightarrow>
            (\<exists>st'. fst (system_tick cfg env penv (st, ps)) = Continue st'
                 \<and> current_index st' = current_index st + 1
                 \<and> frame_counter st' = frame_counter st)
            \<and> pushed_buffers (fst (snd (system_tick cfg env penv (st, ps)))) = []
            \<and> snd (snd (system_tick cfg env penv (st, ps))) = ps)"
proof -
  have a: "is_iframe (iframe_exists_obs env) (iframe_size_obs env) \<longleftrightarrow> 30 * 1024 \<le> s"
    using assms(2,3) by (simp add: is_iframe_Size IFRAME_MIN_SIZE_def)
  have b: "\<not> is_iframe (iframe_exists_obs env) (iframe_size_obs env) \<longrightarrow>
            (\<exists>st'. fst (system_tick cfg env penv (st, ps)) = Continue st'
                 \<and> current_index st' = current_index st + 1
                 \<and> frame_counter st' = frame_counter st)
            \<and> pushed_buffers (fst (snd (system_tick cfg env penv (st, ps)))) = []
            \<and> snd (snd (system_tick cfg env penv (st, ps))) = ps"
  proof
    assume n: "\<not> is_iframe (iframe_exists_obs env) (iframe_size_obs env)"
    have f: "feed_frames_iter cfg env st =
           (Continue (st\<lparr>current_index := current_index st + 1\<rparr>),
            pace cfg (now env) st @ [Log_skip (s div 1024)])"
      using assms(1) n assms(4) by (rule feed_skip)
    have p: "pushed_buffers (pace cfg (now env) st @ [Log_skip (s div 1024)]) = []"
      by (simp add: pushed_buffers_append pushed_buffers_pace)
    show "(\<exists>st'. fst (system_tick cfg env penv (st, ps)) = Continue st'
                 \<and> current_index st' = current_index st + 1
                 \<and> frame_counter st' = frame_counter st)
            \<and> pushed_buffers (fst (snd (system_tick cfg env penv (st, ps)))) = []
            \<and> snd (snd (system_tick cfg env penv (st, ps))) = ps"
      by (simp add: system_tick_def f p run_probes_Nil)
  qed
  from a b show ?thesis by blast
qed

text \<open>
  C3. When a ready frame is classified not-a-keyframe it is skipped: current\_index
  advances by one, frame\_counter does not change and nothing is pushed or logged. The code
  misses one case. The skip message prints \<^verbatim>\<open>fs::file_size(fullpath)/1024\<close> with no
  guard, so when the file (100 bytes, ready, classified not-a-keyframe) has been removed
  by the time the message is written, \<^verbatim>\<open>file_size\<close> throws in the feeder thread: the
  pass ends the process before \<^verbatim>\<open>current_index++\<close> and the frame is not skipped.
  \<^verbatim>\<open>is_iframe\<close>, called just before, guards the same call with \<^verbatim>\<open>try/catch\<close> and
  answers false for a file that is gone.
\<close>

theorem C3_skip_message_throws_when_file_vanishes:
  "is_file_ready (ready_obs (ex_env_small\<lparr>skip_size_obs := Missing\<rparr>)) = Returns True
   \<and> is_iframe (iframe_exists_obs (ex_env_small\<lparr>skip_size_obs := Missing\<rparr>))
                (iframe_size_obs (ex_env_small\<lparr>skip_size_obs := Missing\<rparr>)) = False
   \<and> feed_frames_iter ex_cfg (ex_env_small\<lparr>skip_size_obs := Missing\<rparr>) (ex_feeder 7 9)
       = (Aborted, [Sleep_until 23331000])
   \<and> is_iframe (Size 100) Missing = False"
  by (simp add: feed_frames_iter_def Let_def ex_env_small_def ex_ready is_iframe_def
      fs_exists_def fs_file_size_def IFRAME_MIN_SIZE_def pace_def expected_time_def
      ex_cfg_def ex_feeder_def)

section \<open>Claims about failures after a positive readiness check\<close>


lemma feed_open_failed:
  assumes "is_file_ready (ready_obs env) = Returns True"
    and "is_iframe (iframe_exists_obs env) (iframe_size_obs env)"
    and "\<not> open_ok env"
  shows "feed_frames_iter cfg env st =
           (Continue st, pace cfg (now env) st @ [Log_open_failed, Sleep_for_ms 100])"
  using assms by (simp add: feed_frames_iter_def Let_def)

lemma feed_read_failed:
  assumes "is_file_ready (ready_obs env) = Returns True"
    and "is_iframe (iframe_exists_obs env) (iframe_size_obs env)"
    and "open_ok env" and "read_result env = None"
  shows "feed_frames_iter cfg env st =
           (Continue st, pace cfg (now env) st @ [Log_read_failed, Sleep_for_ms 100])"
  using assms by (simp add: feed_frames_iter_def Let_def)






section \<open>Claims about the counters\<close>


lemma unat_plus_one:
  assumes "(x :: guint64) \<noteq> G_MAXUINT64"
  shows "unat (x + 1) = unat x + 1"
proof -
  have "x + 1 \<noteq> 0"
  proof
    assume "x + 1 = 0"
    then have "x = - 1" by (rule max_word_wrap)
    with assms show False by (simp add: G_MAXUINT64_def)
  qed
  then show ?thesis using unatSuc [of x] by (simp add: add.commute)
qed

lemma le_plus_one:
  assumes "(x :: guint64) \<noteq> G_MAXUINT64"
  shows "x \<le> x + 1"
  by (simp add: word_le_nat_alt unat_plus_one [OF assms])

lemma feed_iter_cases:
  assumes "fst (feed_frames_iter cfg env st) = Continue st' \<or>
           fst (feed_frames_iter cfg env st) = Break st'"
  shows "st' = st
       \<or> st' = st\<lparr>current_index := current_index st + 1\<rparr>
       \<or> st' = st\<lparr>frame_counter := frame_counter st + 1,
                   current_index := current_index st + 1\<rparr>"
  using assms
  by (auto simp: feed_frames_iter_def Let_def
      split: res.splits bool.splits option.splits if_splits)


lemma not_max_if_room:
  assumes "unat (x :: guint64) + Suc k < 2 ^ 64"
  shows "x \<noteq> G_MAXUINT64"
proof
  assume "x = G_MAXUINT64"
  then have "unat x = 18446744073709551615" by (simp add: G_MAXUINT64_def)
  with assms show False by simp
qed

lemma feed_iter_unat:
  assumes "fst (feed_frames_iter cfg env st) = Continue st' \<or>
           fst (feed_frames_iter cfg env st) = Break st'"
    and "frame_counter st \<noteq> G_MAXUINT64" and "current_index st \<noteq> G_MAXUINT64"
  shows "unat (frame_counter st) \<le> unat (frame_counter st')
       \<and> unat (frame_counter st') \<le> unat (frame_counter st) + 1
       \<and> unat (current_index st) \<le> unat (current_index st')
       \<and> unat (current_index st') \<le> unat (current_index st) + 1"
  using feed_iter_cases [OF assms(1)] unat_plus_one [OF assms(2)] unat_plus_one [OF assms(3)]
  by auto

lemma feed_frames_mono:
  assumes "feed_frames cfg envs st = Continue st' \<or> feed_frames cfg envs st = Break st'"
    and "unat (frame_counter st) + length envs < 2 ^ 64"
    and "unat (current_index st) + length envs < 2 ^ 64"
  shows "unat (frame_counter st) \<le> unat (frame_counter st')
       \<and> unat (frame_counter st') \<le> unat (frame_counter st) + length envs
       \<and> unat (current_index st) \<le> unat (current_index st')
       \<and> unat (current_index st') \<le> unat (current_index st) + length envs"
  using assms
proof (induction envs arbitrary: st)
  case Nil
  then show ?case by simp
next
  case (Cons env envs)
  have nf: "frame_counter st \<noteq> G_MAXUINT64"
    using Cons.prems(2) not_max_if_room [of "frame_counter st" "length envs"] by simp
  have nc: "current_index st \<noteq> G_MAXUINT64"
    using Cons.prems(3) not_max_if_room [of "current_index st" "length envs"] by simp
  show ?case
  proof (cases "fst (feed_frames_iter cfg env st)")
    case (Continue st1)
    then have run: "feed_frames cfg envs st1 = Continue st' \<or> feed_frames cfg envs st1 = Break st'"
      using Cons.prems(1) by simp
    have one: "unat (frame_counter st) \<le> unat (frame_counter st1)
       \<and> unat (frame_counter st1) \<le> unat (frame_counter st) + 1
       \<and> unat (current_index st) \<le> unat (current_index st1)
       \<and> unat (current_index st1) \<le> unat (current_index st) + 1"
      using feed_iter_unat [of cfg env st st1] Continue nf nc by simp
    then have r1: "unat (frame_counter st1) + length envs < 2 ^ 64"
      and r2: "unat (current_index st1) + length envs < 2 ^ 64"
      using Cons.prems(2,3) by simp_all
    from Cons.IH [OF run r1 r2] one show ?thesis by simp
  next
    case (Break st1)
    then have "st1 = st'" using Cons.prems(1) by simp
    with Break nf nc feed_iter_unat [of cfg env st st'] show ?thesis by simp
  next
    case Aborted
    then show ?thesis using Cons.prems(1) by simp
  qed
qed

text \<open>
  C9 as stated: neither counter ever decreases. The counters are 64-bit and
  current\_index starts at the index given on the command line; started at
  18446744073709551615 with a ready file below the keyframe threshold, the pass skips the
  file and current\_index wraps to 0.
\<close>

theorem C9_counterexample:
  "fst (feed_frames_iter ex_cfg ex_env_small (ex_feeder 0 18446744073709551615))
     = Continue (ex_feeder 0 0)
   \<and> current_index (ex_feeder 0 0) < current_index (ex_feeder 0 18446744073709551615)"
  by (simp add: feed_frames_iter_def Let_def ex_env_small_def ex_ready is_iframe_Size
      IFRAME_MIN_SIZE_def fs_file_size_def ex_feeder_def)

lemma feed_not_ready:
  assumes "is_file_ready (ready_obs env) = Returns False"
  shows "feed_frames_iter cfg env st =
           (Continue st, pace cfg (now env) st @ [Log_not_ready, Sleep_for_ms 100])"
  using assms by (simp add: feed_frames_iter_def Let_def)

lemma feed_break:
  assumes "is_file_ready (ready_obs env) = Returns True"
    and "is_iframe (iframe_exists_obs env) (iframe_size_obs env)"
    and "open_ok env" and "read_result env = Some bytes"
    and "\<not> map_ok env \<or> \<not> push_ok env"
  shows "fst (feed_frames_iter cfg env st) = Break st"
  using assms by (auto simp: feed_frames_iter_def Let_def)

lemma feed_emit:
  assumes "is_file_ready (ready_obs env) = Returns True"
    and "is_iframe (iframe_exists_obs env) (iframe_size_obs env)"
    and "open_ok env" and "read_result env = Some bytes"
    and "map_ok env" and "push_ok env" and "TARGET_FPS cfg \<noteq> 0"
  shows "fst (feed_frames_iter cfg env st) =
           Continue (st\<lparr>frame_counter := frame_counter st + 1,
                       current_index := current_index st + 1\<rparr>)"
  using assms by (simp add: feed_frames_iter_def Let_def)

text \<open>
  C9, amended. Each pass of the loop changes the counters according to its path, in 64-bit
  arithmetic. A pass that finds the file not ready, a pass whose open or read fails (the
  retried failure) and a pass that breaks on a failed buffer map or a rejected push leave
  both counters unchanged. A pass that skips a non-keyframe (and can read its size for the
  message) increments only current\_index. A pass that emits (with F not zero) increments
  both by exactly one. So every pass that ends in \<^verbatim>\<open>continue\<close>, at the end of the body
  or in \<^verbatim>\<open>break\<close> does one of these three things, and a counter that is below
  2^64 - 1 before the pass does not decrease in it. Over any run of passes that cannot
  reach the wrap (counter plus number of passes below 2^64) both counters are
  non-decreasing.
\<close>

theorem C9_counters_never_decrease_below_wrap:
  "(is_file_ready (ready_obs env) = Returns False \<longrightarrow>
      fst (feed_frames_iter cfg env st) = Continue st)
   \<and> (is_file_ready (ready_obs env) = Returns True
       \<and> \<not> is_iframe (iframe_exists_obs env) (iframe_size_obs env)
       \<and> skip_size_obs env = Size n \<longrightarrow>
      fst (feed_frames_iter cfg env st) = Continue (st\<lparr>current_index := current_index st + 1\<rparr>))
   \<and> (is_file_ready (ready_obs env) = Returns True
       \<and> is_iframe (iframe_exists_obs env) (iframe_size_obs env)
       \<and> (\<not> open_ok env \<or> read_result env = None) \<longrightarrow>
      fst (feed_frames_iter cfg env st) = Continue st)
   \<and> (is_file_ready (ready_obs env) = Returns True
       \<and> is_iframe (iframe_exists_obs env) (iframe_size_obs env)
       \<and> open_ok env \<and> read_result env = Some bytes
       \<and> (\<not> map_ok env \<or> \<not> push_ok env) \<longrightarrow>
      fst (feed_frames_iter cfg env st) = Break st)
   \<and> (is_file_ready (ready_obs env) = Returns True
       \<and> is_iframe (iframe_exists_obs env) (iframe_size_obs env)
       \<and> open_ok env \<and> read_result env = Some bytes
       \<and> map_ok env \<and> push_ok env \<and> TARGET_FPS cfg \<noteq> 0 \<longrightarrow>
      fst (feed_frames_iter cfg env st) =
        Continue (st\<lparr>frame_counter := frame_counter st + 1,
                    current_index := current_index st + 1\<rparr>))
   \<and> (fst (feed_frames_iter cfg env st) = Continue st' \<or>
       fst (feed_frames_iter cfg env st) = Break st' \<longrightarrow>
      ((frame_counter st' = frame_counter st \<and> current_index st' = current_index st)
       \<or> (frame_counter st' = frame_counter st \<and> current_index st' = current_index st + 1)
       \<or> (frame_counter st' = frame_counter st + 1 \<and> current_index st' = current_index st + 1))
      \<and> (frame_counter st \<noteq> G_MAXUINT64 \<longrightarrow> frame_counter st \<le> frame_counter st')
      \<and> (current_index st \<noteq> G_MAXUINT64 \<longrightarrow> current_index st \<le> current_index st'))
   \<and> ((feed_frames cfg envs st = Continue st'' \<or> feed_frames cfg envs st = Break st'')
        \<and> unat (frame_counter st) + length envs < 2 ^ 64
        \<and> unat (current_index st) + length envs < 2 ^ 64 \<longrightarrow>
      frame_counter st \<le> frame_counter st'' \<and> current_index st \<le> current_index st'')"
proof -
  have p1: "is_file_ready (ready_obs env) = Returns False \<longrightarrow>
      fst (feed_frames_iter cfg env st) = Continue st"
    by (simp add: feed_not_ready)
  have p2: "is_file_ready (ready_obs env) = Returns True
       \<and> \<not> is_iframe (iframe_exists_obs env) (iframe_size_obs env)
       \<and> skip_size_obs env = Size n \<longrightarrow>
      fst (feed_frames_iter cfg env st) = Continue (st\<lparr>current_index := current_index st + 1\<rparr>)"
    by (simp add: feed_skip)
  have p3: "is_file_ready (ready_obs env) = Returns True
       \<and> is_iframe (iframe_exists_obs env) (iframe_size_obs env)
       \<and> (\<not> open_ok env \<or> read_result env = None) \<longrightarrow>
      fst (feed_frames_iter cfg env st) = Continue st"
  proof
    assume h: "is_file_ready (ready_obs env) = Returns True
       \<and> is_iframe (iframe_exists_obs env) (iframe_size_obs env)
       \<and> (\<not> open_ok env \<or> read_result env = None)"
    show "fst (feed_frames_iter cfg env st) = Continue st"
    proof (cases "open_ok env")
      case False
      with h show ?thesis by (simp add: feed_open_failed)
    next
      case True
      with h have "read_result env = None" by simp
      with h True show ?thesis by (simp add: feed_read_failed)
    qed
  qed
  have p4: "is_file_ready (ready_obs env) = Returns True
       \<and> is_iframe (iframe_exists_obs env) (iframe_size_obs env)
       \<and> open_ok env \<and> read_result env = Some bytes
       \<and> (\<not> map_ok env \<or> \<not> push_ok env) \<longrightarrow>
      fst (feed_frames_iter cfg env st) = Break st"
    using feed_break [of env bytes cfg st] by blast
  have p5: "is_file_ready (ready_obs env) = Returns True
       \<and> is_iframe (iframe_exists_obs env) (iframe_size_obs env)
       \<and> open_ok env \<and> read_result env = Some bytes
       \<and> map_ok env \<and> push_ok env \<and> TARGET_FPS cfg \<noteq> 0 \<longrightarrow>
      fst (feed_frames_iter cfg env st) =
        Continue (st\<lparr>frame_counter := frame_counter st + 1,
                    current_index := current_index st + 1\<rparr>)"
    using feed_emit [of env bytes cfg st] by blast
  have a: "fst (feed_frames_iter cfg env st) = Continue st' \<or>
    fst (feed_frames_iter cfg env st) = Break st' \<longrightarrow>
      ((frame_counter st' = frame_counter st \<and> current_index st' = current_index st)
       \<or> (frame_counter st' = frame_counter st \<and> current_index st' = current_index st + 1)
       \<or> (frame_counter st' = frame_counter st + 1 \<and> current_index st' = current_index st + 1))
      \<and> (frame_counter st \<noteq> G_MAXUINT64 \<longrightarrow> frame_counter st \<le> frame_counter st')
      \<and> (current_index st \<noteq> G_MAXUINT64 \<longrightarrow> current_index st \<le> current_index st')"
  proof
    assume h: "fst (feed_frames_iter cfg env st) = Continue st' \<or>
      fst (feed_frames_iter cfg env st) = Break st'"
    from feed_iter_cases [OF h] show
      "((frame_counter st' = frame_counter st \<and> current_index st' = current_index st)
       \<or> (frame_counter st' = frame_counter st \<and> current_index st' = current_index st + 1)
       \<or> (frame_counter st' = frame_counter st + 1 \<and> current_index st' = current_index st + 1))
      \<and> (frame_counter st \<noteq> G_MAXUINT64 \<longrightarrow> frame_counter st \<le> frame_counter st')
      \<and> (current_index st \<noteq> G_MAXUINT64 \<longrightarrow> current_index st \<le> current_index st')"
      by (auto simp: le_plus_one)
  qed
  have b: "(feed_frames cfg envs st = Continue st'' \<or> feed_frames cfg envs st = Break st'')
        \<and> unat (frame_counter st) + length envs < 2 ^ 64
        \<and> unat (current_index st) + length envs < 2 ^ 64 \<longrightarrow>
      frame_counter st \<le> frame_counter st'' \<and> current_index st \<le> current_index st''"
    using feed_frames_mono [of cfg envs st st''] by (simp add: word_le_nat_alt)
  from p1 p2 p3 p4 p5 a b show ?thesis by blast
qed

text \<open>
  Witness for C9: a pass that finds no file, a skipping pass, a pass whose open fails, a
  pass whose push is rejected, an emitting pass, and a run of a skipping and an emitting
  pass.
\<close>

theorem C9_witness:
  "is_file_ready (ready_obs (ex_env\<lparr>ready_obs := answers [] Missing\<rparr>)) = Returns False
   \<and> fst (feed_frames_iter ex_cfg (ex_env\<lparr>ready_obs := answers [] Missing\<rparr>) (ex_feeder 7 9))
       = Continue (ex_feeder 7 9)
   \<and> skip_size_obs ex_env_small = Size 100
   \<and> fst (feed_frames_iter ex_cfg ex_env_small (ex_feeder 7 9)) = Continue (ex_feeder 7 10)
   \<and> open_ok (ex_env\<lparr>open_ok := False\<rparr>) = False
   \<and> fst (feed_frames_iter ex_cfg (ex_env\<lparr>open_ok := False\<rparr>) (ex_feeder 7 9))
       = Continue (ex_feeder 7 9)
   \<and> push_ok (ex_env\<lparr>push_ok := False\<rparr>) = False
   \<and> fst (feed_frames_iter ex_cfg (ex_env\<lparr>push_ok := False\<rparr>) (ex_feeder 7 9))
       = Break (ex_feeder 7 9)
   \<and> fst (feed_frames_iter ex_cfg ex_env (ex_feeder 7 9)) = Continue (ex_feeder 8 10)
   \<and> frame_counter (ex_feeder 7 9) \<noteq> G_MAXUINT64
   \<and> current_index (ex_feeder 7 9) \<noteq> G_MAXUINT64
   \<and> frame_counter (ex_feeder 7 9) \<le> frame_counter (ex_feeder 8 10)
   \<and> current_index (ex_feeder 7 9) \<le> current_index (ex_feeder 8 10)
   \<and> feed_frames ex_cfg [ex_env_small, ex_env] (ex_feeder 7 9) = Continue (ex_feeder 8 11)
   \<and> unat (frame_counter (ex_feeder 7 9)) + length [ex_env_small, ex_env] < 2 ^ 64
   \<and> unat (current_index (ex_feeder 7 9)) + length [ex_env_small, ex_env] < 2 ^ 64
   \<and> frame_counter (ex_feeder 7 9) \<le> frame_counter (ex_feeder 8 11)
   \<and> current_index (ex_feeder 7 9) \<le> current_index (ex_feeder 8 11)"
proof -
  have rdy: "is_file_ready (ready_obs ex_env) = Returns True"
    "is_file_ready (ready_obs ex_env_small) = Returns True"
    "is_file_ready (ready_obs (ex_env\<lparr>open_ok := False\<rparr>)) = Returns True"
    "is_file_ready (ready_obs (ex_env\<lparr>push_ok := False\<rparr>)) = Returns True"
    by (simp_all add: ex_env_def ex_env_small_def ex_ready)
  have nrdy: "is_file_ready (ready_obs (ex_env\<lparr>ready_obs := answers [] Missing\<rparr>)) = Returns False"
    by (simp add: is_file_ready_def is_file_ready_n_def answers_def fs_exists_def)
  have key: "is_iframe (iframe_exists_obs ex_env) (iframe_size_obs ex_env)"
    "is_iframe (iframe_exists_obs (ex_env\<lparr>open_ok := False\<rparr>))
               (iframe_size_obs (ex_env\<lparr>open_ok := False\<rparr>))"
    "is_iframe (iframe_exists_obs (ex_env\<lparr>push_ok := False\<rparr>))
               (iframe_size_obs (ex_env\<lparr>push_ok := False\<rparr>))"
    "\<not> is_iframe (iframe_exists_obs ex_env_small) (iframe_size_obs ex_env_small)"
    by (simp_all add: ex_env_def ex_env_small_def is_iframe_Size IFRAME_MIN_SIZE_def)
  have env: "skip_size_obs ex_env_small = Size 100"
    "open_ok (ex_env\<lparr>open_ok := False\<rparr>) = False"
    "push_ok (ex_env\<lparr>push_ok := False\<rparr>) = False"
    "open_ok (ex_env\<lparr>push_ok := False\<rparr>)"
    "read_result (ex_env\<lparr>push_ok := False\<rparr>) = Some [0, 0, 1]"
    "open_ok ex_env" "read_result ex_env = Some [0, 0, 1]" "map_ok ex_env" "push_ok ex_env"
    "TARGET_FPS ex_cfg \<noteq> 0"
    by (simp_all add: ex_env_def ex_env_small_def ex_cfg_def)
  have w1: "fst (feed_frames_iter ex_cfg (ex_env\<lparr>ready_obs := answers [] Missing\<rparr>) (ex_feeder 7 9))
       = Continue (ex_feeder 7 9)"
    using C9_counters_never_decrease_below_wrap
      [where env = "ex_env\<lparr>ready_obs := answers [] Missing\<rparr>" and cfg = ex_cfg
        and st = "ex_feeder 7 9"] nrdy
    by blast
  have w2: "fst (feed_frames_iter ex_cfg ex_env_small (ex_feeder 7 9)) = Continue (ex_feeder 7 10)"
    using C9_counters_never_decrease_below_wrap
      [where env = ex_env_small and cfg = ex_cfg and st = "ex_feeder 7 9" and n = 100]
      rdy(2) key(4) env(1)
    by (simp add: ex_feeder_def)
  have w3: "fst (feed_frames_iter ex_cfg (ex_env\<lparr>open_ok := False\<rparr>) (ex_feeder 7 9))
       = Continue (ex_feeder 7 9)"
    using C9_counters_never_decrease_below_wrap
      [where env = "ex_env\<lparr>open_ok := False\<rparr>" and cfg = ex_cfg and st = "ex_feeder 7 9"]
      rdy(3) key(2) env(2)
    by blast
  have w4: "fst (feed_frames_iter ex_cfg (ex_env\<lparr>push_ok := False\<rparr>) (ex_feeder 7 9))
       = Break (ex_feeder 7 9)"
    using C9_counters_never_decrease_below_wrap
      [where env = "ex_env\<lparr>push_ok := False\<rparr>" and cfg = ex_cfg and st = "ex_feeder 7 9"
        and bytes = "[0, 0, 1]"]
      rdy(4) key(3) env(3,4,5)
    by blast
  have s1: "fst (feed_frames_iter ex_cfg ex_env (ex_feeder 7 9)) = Continue (ex_feeder 8 10)"
    using C9_counters_never_decrease_below_wrap
      [where env = ex_env and cfg = ex_cfg and st = "ex_feeder 7 9" and bytes = "[0, 0, 1]"]
      rdy(1) key(1) env(6,7,8,9,10)
    by (simp add: ex_feeder_def)
  have s2: "fst (feed_frames_iter ex_cfg ex_env_small (ex_feeder 7 9)) = Continue (ex_feeder 7 10)"
    by (rule w2)
  have s3: "fst (feed_frames_iter ex_cfg ex_env (ex_feeder 7 10)) = Continue (ex_feeder 8 11)"
    by (simp add: feed_emit [OF rdy(1) key(1) env(6,7,8,9,10)] ex_feeder_def)
  have r: "feed_frames ex_cfg [ex_env_small, ex_env] (ex_feeder 7 9) = Continue (ex_feeder 8 11)"
    by (simp add: s2 s3)
  have n: "frame_counter (ex_feeder 7 9) \<noteq> G_MAXUINT64"
    "current_index (ex_feeder 7 9) \<noteq> G_MAXUINT64"
    "unat (frame_counter (ex_feeder 7 9)) + length [ex_env_small, ex_env] < 2 ^ 64"
    "unat (current_index (ex_feeder 7 9)) + length [ex_env_small, ex_env] < 2 ^ 64"
    by (simp_all add: ex_feeder_def G_MAXUINT64_def)
  have m: "frame_counter (ex_feeder 7 9) \<le> frame_counter (ex_feeder 8 10)
   \<and> current_index (ex_feeder 7 9) \<le> current_index (ex_feeder 8 10)
   \<and> frame_counter (ex_feeder 7 9) \<le> frame_counter (ex_feeder 8 11)
   \<and> current_index (ex_feeder 7 9) \<le> current_index (ex_feeder 8 11)"
    using C9_counters_never_decrease_below_wrap
      [where env = ex_env and cfg = ex_cfg and st = "ex_feeder 7 9" and st' = "ex_feeder 8 10"
        and envs = "[ex_env_small, ex_env]" and st'' = "ex_feeder 8 11"] s1 r n
    by blast
  from nrdy w1 env(1) w2 env(2) w3 env(3) w4 s1 n m r show ?thesis by blast
qed

section \<open>Claims about pacing\<close>


lemma warnings_append: "warnings (xs @ ys) = warnings xs @ warnings ys"
  by (induction xs rule: warnings.induct) simp_all

lemma fst_feed_now:
  "fst (feed_frames_iter cfg (env\<lparr>now := t\<rparr>) st) = fst (feed_frames_iter cfg env st)"
  by (simp add: feed_frames_iter_def Let_def
      split: res.split bool.split option.split)

lemma pushed_feed_now:
  "pushed_buffers (snd (feed_frames_iter cfg (env\<lparr>now := t\<rparr>) st)) =
   pushed_buffers (snd (feed_frames_iter cfg env st))"
  by (simp add: feed_pushed split: option.split)

lemma main_never_warns: "warnings (snd (main_feed_frames_iter cfg env mst)) = []"
  by (simp add: main_feed_frames_iter_def Let_def warnings_append
      split: res.split bool.split option.split)

lemma main_next_frame_time:
  "fst (main_feed_frames_iter cfg env mst) = Continue mst' \<Longrightarrow>
   next_frame_time mst' = next_frame_time mst + frame_duration cfg * 1000"
  by (auto simp: main_feed_frames_iter_def Let_def
      split: res.splits bool.splits option.splits if_splits)

text \<open>
  C8 as stated: whenever the current time exceeds the target by more than one frame
  interval the pacer logs a behind-schedule warning. At 300 frames per second (interval
  3333 whole microseconds, 3333.33 exactly) with frame 0 due at time 0, a pass that starts
  3.4 ms late logs no warning: the lag is cut to 3 whole milliseconds before it is compared
  with 1000 / 300 ms.
\<close>

theorem C8_counterexample:
  "now (ex_env\<lparr>now := 3400000\<rparr>) - expected_time ex_cfg (ex_feeder 0 0) = 3400000
   \<and> frame_duration ex_cfg * 1000 < 3400000
   \<and> 1000000000 < 3400000 * unat (TARGET_FPS ex_cfg)
   \<and> warnings (snd (feed_frames_iter ex_cfg (ex_env\<lparr>now := 3400000\<rparr>) (ex_feeder 0 0))) = []"
  by (simp add: feed_frames_iter_def Let_def ex_env_def ex_ready is_iframe_Size
      IFRAME_MIN_SIZE_def pace_def expected_time_def ex_cfg_def ex_feeder_def)

text \<open>
  C8, amended. In the feeder with the keyframe filter the target of a pass is
  start\_time + frame\_counter * frame\_duration, computed from the fixed anchor, with
  frame\_duration the interval in whole microseconds. Before the target the pacer sleeps
  until it. At or after the target it does not sleep, and it logs the warning exactly when
  the lag in whole milliseconds, times F, exceeds 1000; this is always so once the lag
  reaches (1000 div F + 1) milliseconds. The clock reading changes neither how the pass ends
  and what it does to the counters, nor the buffer it pushes: no frame is dropped for being
  late. The feeder of \<^verbatim>\<open>main.cpp\<close> never logs the warning and moves its target forward
  by one interval on every pass that continues.
\<close>

theorem C8_pacing_from_fixed_anchor:
  "(now env < start_time cfg + unat (frame_counter st) * frame_duration cfg * 1000 \<longrightarrow>
      pace cfg (now env) st =
        [Sleep_until (start_time cfg + unat (frame_counter st) * frame_duration cfg * 1000)])
   \<and> (start_time cfg + unat (frame_counter st) * frame_duration cfg * 1000 \<le> now env \<longrightarrow>
      pace cfg (now env) st =
        (if 1000 < (now env - (start_time cfg + unat (frame_counter st) * frame_duration cfg * 1000))
                     div 1000000 * unat (TARGET_FPS cfg)
         then [Warn_behind
                 ((now env - (start_time cfg + unat (frame_counter st) * frame_duration cfg * 1000))
                    div 1000000)
                 (frame_counter st)]
         else []))
   \<and> (TARGET_FPS cfg \<noteq> 0
       \<and> start_time cfg + unat (frame_counter st) * frame_duration cfg * 1000
           + (1000 div unat (TARGET_FPS cfg) + 1) * 1000000 \<le> now env \<longrightarrow>
      warnings (pace cfg (now env) st) \<noteq> [])
   \<and> fst (feed_frames_iter cfg (env\<lparr>now := t\<rparr>) st) = fst (feed_frames_iter cfg env st)
   \<and> pushed_buffers (snd (feed_frames_iter cfg (env\<lparr>now := t\<rparr>) st)) =
       pushed_buffers (snd (feed_frames_iter cfg env st))
   \<and> warnings (snd (main_feed_frames_iter cfg env mst)) = []
   \<and> (fst (main_feed_frames_iter cfg env mst) = Continue mst' \<longrightarrow>
        next_frame_time mst' = next_frame_time mst + frame_duration cfg * 1000)"
proof -
  let ?e = "start_time cfg + unat (frame_counter st) * frame_duration cfg * 1000"
  have e: "expected_time cfg st = ?e" by (simp add: expected_time_def)
  have 1: "now env < ?e \<longrightarrow> pace cfg (now env) st = [Sleep_until ?e]"
    by (simp add: pace_def e)
  have 2: "?e \<le> now env \<longrightarrow>
      pace cfg (now env) st =
        (if 1000 < (now env - ?e) div 1000000 * unat (TARGET_FPS cfg)
         then [Warn_behind ((now env - ?e) div 1000000) (frame_counter st)]
         else [])"
    by (simp add: pace_def e Let_def)
  have 3: "TARGET_FPS cfg \<noteq> 0 \<and> ?e + (1000 div unat (TARGET_FPS cfg) + 1) * 1000000 \<le> now env \<longrightarrow>
      warnings (pace cfg (now env) st) \<noteq> []"
  proof
    assume h: "TARGET_FPS cfg \<noteq> 0 \<and> ?e + (1000 div unat (TARGET_FPS cfg) + 1) * 1000000 \<le> now env"
    let ?F = "unat (TARGET_FPS cfg)"
    let ?d = "(now env - ?e) div 1000000"
    from h have F0: "0 < ?F" by (simp add: unat_gt_0)
    from h have "?e + (1000 div ?F + 1) * 1000000 \<le> now env" by (rule conjunct2)
    then have "(1000 div ?F + 1) * 1000000 + ?e \<le> now env" by (simp only: add.commute)
    then have "(1000 div ?F + 1) * 1000000 \<le> now env - ?e" by (rule add_le_imp_le_diff)
    then have "(1000 div ?F + 1) * 1000000 div 1000000 \<le> ?d" by (rule div_le_mono)
    then have d: "1000 div ?F + 1 \<le> ?d" by simp
    have "1000 < (1000 div ?F + 1) * ?F"
      using F0 by (metis Suc_eq_plus1 dividend_less_div_times mult.commute mult_Suc_right add.commute)
    also have "\<dots> \<le> ?d * ?F" using d by (rule mult_le_mono1)
    finally have "1000 < ?d * ?F" .
    moreover from h have "?e + (1000 div ?F + 1) * 1000000 \<le> now env" by (rule conjunct2)
    then have "?e \<le> now env" by (rule add_leD1)
    ultimately show "warnings (pace cfg (now env) st) \<noteq> []"
      using 2 by simp
  qed
  have 4: "fst (feed_frames_iter cfg (env\<lparr>now := t\<rparr>) st) = fst (feed_frames_iter cfg env st)"
    by (rule fst_feed_now)
  have 5: "pushed_buffers (snd (feed_frames_iter cfg (env\<lparr>now := t\<rparr>) st)) =
       pushed_buffers (snd (feed_frames_iter cfg env st))"
    by (rule pushed_feed_now)
  have 6: "warnings (snd (main_feed_frames_iter cfg env mst)) = []"
    by (rule main_never_warns)
  have 7: "fst (main_feed_frames_iter cfg env mst) = Continue mst' \<longrightarrow>
        next_frame_time mst' = next_frame_time mst + frame_duration cfg * 1000"
    by (simp add: main_next_frame_time)
  from 1 2 3 4 5 6 7 show ?thesis by blast
qed

text \<open>
  Witness for C8: a pass that is early for frame 7, and a pass that is 10 ms late for
  frame 0, at 300 frames per second.
\<close>

theorem C8_witness:
  "now ex_env < start_time ex_cfg + unat (frame_counter (ex_feeder 7 9)) * frame_duration ex_cfg * 1000
   \<and> pace ex_cfg (now ex_env) (ex_feeder 7 9) = [Sleep_until 23331000]
   \<and> TARGET_FPS ex_cfg \<noteq> 0
   \<and> start_time ex_cfg + unat (frame_counter (ex_feeder 0 0)) * frame_duration ex_cfg * 1000
         + (1000 div unat (TARGET_FPS ex_cfg) + 1) * 1000000 \<le> now (ex_env\<lparr>now := 10000000\<rparr>)
   \<and> pace ex_cfg (now (ex_env\<lparr>now := 10000000\<rparr>)) (ex_feeder 0 0) = [Warn_behind 10 0]
   \<and> fst (main_feed_frames_iter ex_cfg (ex_env\<lparr>ready_obs := answers [] Missing\<rparr>)
             (ex_main_feeder 7))
        = Continue ((ex_main_feeder 7)\<lparr>next_frame_time := 3333000\<rparr>)
   \<and> next_frame_time ((ex_main_feeder 7)\<lparr>next_frame_time := 3333000\<rparr>)
       = next_frame_time (ex_main_feeder 7) + frame_duration ex_cfg * 1000"
proof -
  have m: "fst (main_feed_frames_iter ex_cfg (ex_env\<lparr>ready_obs := answers [] Missing\<rparr>)
             (ex_main_feeder 7))
        = Continue ((ex_main_feeder 7)\<lparr>next_frame_time := 3333000\<rparr>)"
    by (simp add: main_feed_frames_iter_def Let_def ex_env_def ex_cfg_def ex_main_feeder_def
        is_file_ready_def is_file_ready_n_def answers_def fs_exists_def)
  have h: "now ex_env < start_time ex_cfg + unat (frame_counter (ex_feeder 7 9)) * frame_duration ex_cfg * 1000"
    "TARGET_FPS ex_cfg \<noteq> 0"
    "start_time ex_cfg + unat (frame_counter (ex_feeder 0 0)) * frame_duration ex_cfg * 1000
         + (1000 div unat (TARGET_FPS ex_cfg) + 1) * 1000000 \<le> now (ex_env\<lparr>now := 10000000\<rparr>)"
    by (simp_all add: ex_env_def ex_cfg_def ex_feeder_def)
  have a: "pace ex_cfg (now ex_env) (ex_feeder 7 9) = [Sleep_until 23331000]"
    using C8_pacing_from_fixed_anchor [of ex_env ex_cfg "ex_feeder 7 9" 0
      "ex_main_feeder 7" "ex_main_feeder 7"] h(1)
    by (simp add: ex_cfg_def ex_feeder_def)
  have b: "pace ex_cfg (now (ex_env\<lparr>now := 10000000\<rparr>)) (ex_feeder 0 0) = [Warn_behind 10 0]"
    by (simp add: pace_def expected_time_def ex_cfg_def ex_feeder_def ex_env_def)
  have c: "next_frame_time ((ex_main_feeder 7)\<lparr>next_frame_time := 3333000\<rparr>)
       = next_frame_time (ex_main_feeder 7) + frame_duration ex_cfg * 1000"
    using C8_pacing_from_fixed_anchor [of "ex_env\<lparr>ready_obs := answers [] Missing\<rparr>" ex_cfg
      "ex_feeder 7 9" 0 "ex_main_feeder 7" "(ex_main_feeder 7)\<lparr>next_frame_time := 3333000\<rparr>"] m
    by blast
  from a b c m h show ?thesis by blast
qed

section \<open>Claims about metadata and the logs\<close>


lemma probe_prev:
  "prev_ball (video_probe prefix n server (Some pts) st)
     = ball (lookup_metadata (redis (pdata st)) server (redis_key_of (make_frame_filename prefix n)))"
  "prev_over (video_probe prefix n server (Some pts) st)
     = over (lookup_metadata (redis (pdata st)) server (redis_key_of (make_frame_filename prefix n)))"
  "prev_innings (video_probe prefix n server (Some pts) st)
     = innings (lookup_metadata (redis (pdata st)) server (redis_key_of (make_frame_filename prefix n)))"
  by (simp_all add: video_probe_def Let_def)

lemma probe_keeps:
  "redis (pdata (video_probe prefix n server info st)) = redis (pdata st)"
  "is_open (csv_summary (pdata (video_probe prefix n server info st))) = is_open (csv_summary (pdata st))"
  "is_open (csv (pdata (video_probe prefix n server info st))) = is_open (csv (pdata st))"
  by (simp_all add: video_probe_def Let_def write_row_def split: option.split)

lemma probe_summary_rows:
  "rows (csv_summary (pdata (video_probe prefix n server (Some pts) st))) =
     rows (csv_summary (pdata st)) @
       (if pts \<noteq> GST_CLOCK_TIME_NONE \<and> is_open (csv_summary (pdata st))
           \<and> triple_changed
                (lookup_metadata (redis (pdata st)) server (redis_key_of (make_frame_filename prefix n)))
                st
        then [summary_row n (pts_90k_of pts)
                (lookup_metadata (redis (pdata st)) server (redis_key_of (make_frame_filename prefix n)))]
        else [])"
  by (simp add: video_probe_def Let_def write_row_def pts_90k_of_def)

lemma probe_primary_rows:
  "rows (csv (pdata (video_probe prefix n server (Some pts) st))) =
     rows (csv (pdata st)) @
       (if is_open (csv (pdata st))
        then [primary_row n
                (if pts \<noteq> GST_CLOCK_TIME_NONE then dec (unat (pts_90k_of pts)) else ''NA'')
                (make_frame_filename prefix n)
                (lookup_metadata (redis (pdata st)) server (redis_key_of (make_frame_filename prefix n)))]
        else [])"
  by (simp add: video_probe_def Let_def write_row_def pts_90k_of_def)

lemma probe_lookups:
  "lookups (video_probe prefix n server (Some pts) st) =
     lookups st @ (case redis (pdata st) of None \<Rightarrow> []
                   | Some ctx \<Rightarrow> [redis_key_of (make_frame_filename prefix n)])"
  by (simp add: video_probe_def Let_def)

lemma extract_all_empty_object:
  "extract_all (c_str ''{}'') =
     \<lparr>ball = ''NA'', frame_name = ''NA'', innings = ''NA'', isStart = ''NA'',
      matchID = ''NA'', over = ''NA'', ptp_timestamp = ''NA'', received_at = ''NA''\<rparr>"
  by (simp add: extract_all_def extract_field_def c_str_def str_find_def label_of_def)

lemma extract_zero:
  "extract_field (c_str ex_json_zero) ''ball'' = ''0''"
  "extract_field (c_str ex_json_zero) ''over'' = ''0''"
  "extract_field (c_str ex_json_zero) ''innings'' = ''0''"
  by (simp_all add: extract_field_def c_str_def str_find_def label_of_def ex_json_zero_def
      find_first_of_def substr_def Let_def)


lemma lookup_default:
  "r = None \<or> server key = None \<or> server key = Some REDIS_REPLY_OTHER \<Longrightarrow>
   lookup_metadata r server key = default_metadata"
  by (auto simp: lookup_metadata_def split: option.split redisReply.split)

lemma extract_field_absent:
  "str_find json (label_of key) 0 = None \<Longrightarrow> extract_field json key = ''NA''"
  by (simp add: extract_field_def)

text \<open>
  C6 as stated: when the store is unreachable every field of the frame's record holds the
  sentinel value. With no connection (\<^verbatim>\<open>pdata->redis\<close> null) the record is the one the
  fields were initialised with: \<open>ball\<close> is \<^verbatim>\<open>"1"\<close> while \<open>frame_name\<close> is
  \<^verbatim>\<open>"NA"\<close>, and \<open>matchID\<close> is \<^verbatim>\<open>"123"\<close>; the same holds with a connection and an
  absent key.
\<close>

theorem C6_counterexample:
  "ball (lookup_metadata None ex_server_nil ''frame_camera01_000000000'') = ''1''
   \<and> ball (lookup_metadata None ex_server_nil ''frame_camera01_000000000'') \<noteq> ''NA''
   \<and> frame_name (lookup_metadata None ex_server_nil ''frame_camera01_000000000'') = ''NA''
   \<and> matchID (lookup_metadata (Some RedisContext) ex_server_nil ''frame_camera01_000000000'')
       = ''123''"
  by (simp add: lookup_metadata_def default_metadata_def ex_server_nil_def)

text \<open>
  C6, amended. When there is no connection, the lookup fails or the reply is not a string
  (absent key), the record holds the fixed initial values: \<^verbatim>\<open>"1"\<close> for ball, innings
  and over, \<^verbatim>\<open>"false"\<close> for isStart, \<^verbatim>\<open>"123"\<close> for matchID and \<^verbatim>\<open>"NA"\<close> for
  frame\_name, ptp\_timestamp and received\_at. When the stored value is a string in which
  none of the field labels occurs, every field is \<^verbatim>\<open>"NA"\<close>. In every case the probe
  writes exactly one row with that record to the primary log when the log is open, and
  sends at most one key to the store (no retry); nothing in the probe ends the stream.
\<close>

theorem C6_lookup_failure_gives_initial_values:
  "(r = None \<or> server key = None \<or> server key = Some REDIS_REPLY_OTHER \<longrightarrow>
      lookup_metadata r server key =
        \<lparr>ball = ''1'', frame_name = ''NA'', innings = ''1'', isStart = ''false'',
         matchID = ''123'', over = ''1'', ptp_timestamp = ''NA'', received_at = ''NA''\<rparr>)
   \<and> (r = Some ctx \<and> server key = Some (REDIS_REPLY_STRING str)
       \<and> str_find (c_str str) (label_of ''ball'') 0 = None
       \<and> str_find (c_str str) (label_of ''frame_name'') 0 = None
       \<and> str_find (c_str str) (label_of ''innings'') 0 = None
       \<and> str_find (c_str str) (label_of ''isStart'') 0 = None
       \<and> str_find (c_str str) (label_of ''matchID'') 0 = None
       \<and> str_find (c_str str) (label_of ''over'') 0 = None
       \<and> str_find (c_str str) (label_of ''ptp_timestamp'') 0 = None
       \<and> str_find (c_str str) (label_of ''received_at'') 0 = None \<longrightarrow>
      lookup_metadata r server key =
        \<lparr>ball = ''NA'', frame_name = ''NA'', innings = ''NA'', isStart = ''NA'',
         matchID = ''NA'', over = ''NA'', ptp_timestamp = ''NA'', received_at = ''NA''\<rparr>)
   \<and> rows (csv (pdata (video_probe prefix n server (Some pts) st))) =
       rows (csv (pdata st)) @
         (if is_open (csv (pdata st))
          then [primary_row n
                  (if pts \<noteq> GST_CLOCK_TIME_NONE then dec (unat (pts_90k_of pts)) else ''NA'')
                  (make_frame_filename prefix n)
                  (lookup_metadata (redis (pdata st)) server
                     (redis_key_of (make_frame_filename prefix n)))]
          else [])
   \<and> length (lookups (video_probe prefix n server (Some pts) st)) \<le> length (lookups st) + 1"
proof -
  have 1: "r = None \<or> server key = None \<or> server key = Some REDIS_REPLY_OTHER \<longrightarrow>
      lookup_metadata r server key =
        \<lparr>ball = ''1'', frame_name = ''NA'', innings = ''1'', isStart = ''false'',
         matchID = ''123'', over = ''1'', ptp_timestamp = ''NA'', received_at = ''NA''\<rparr>"
    using lookup_default [of r server key] by (simp add: default_metadata_def)
  have 2: "r = Some ctx \<and> server key = Some (REDIS_REPLY_STRING str)
       \<and> str_find (c_str str) (label_of ''ball'') 0 = None
       \<and> str_find (c_str str) (label_of ''frame_name'') 0 = None
       \<and> str_find (c_str str) (label_of ''innings'') 0 = None
       \<and> str_find (c_str str) (label_of ''isStart'') 0 = None
       \<and> str_find (c_str str) (label_of ''matchID'') 0 = None
       \<and> str_find (c_str str) (label_of ''over'') 0 = None
       \<and> str_find (c_str str) (label_of ''ptp_timestamp'') 0 = None
       \<and> str_find (c_str str) (label_of ''received_at'') 0 = None \<longrightarrow>
      lookup_metadata r server key =
        \<lparr>ball = ''NA'', frame_name = ''NA'', innings = ''NA'', isStart = ''NA'',
         matchID = ''NA'', over = ''NA'', ptp_timestamp = ''NA'', received_at = ''NA''\<rparr>"
    by (simp add: lookup_metadata_def extract_all_def extract_field_absent)
  have 3: "length (lookups (video_probe prefix n server (Some pts) st)) \<le> length (lookups st) + 1"
    by (simp add: probe_lookups split: option.split)
  from 1 2 3 probe_primary_rows [of prefix n server pts st] show ?thesis by blast
qed

text \<open>
  Witness for C6: frame 0 with no connection, and with a connection to a store whose value
  is \<^verbatim>\<open>{}\<close>.
\<close>

theorem C6_witness:
  "lookup_metadata None ex_server_nil ''frame_camera01_000000000'' =
        \<lparr>ball = ''1'', frame_name = ''NA'', innings = ''1'', isStart = ''false'',
         matchID = ''123'', over = ''1'', ptp_timestamp = ''NA'', received_at = ''NA''\<rparr>
   \<and> ex_server_empty_object ''frame_camera01_000000000'' = Some (REDIS_REPLY_STRING ''{}'')
   \<and> str_find (c_str ''{}'') (label_of ''ball'') 0 = None
   \<and> lookup_metadata (Some RedisContext) ex_server_empty_object ''frame_camera01_000000000'' =
        \<lparr>ball = ''NA'', frame_name = ''NA'', innings = ''NA'', isStart = ''NA'',
         matchID = ''NA'', over = ''NA'', ptp_timestamp = ''NA'', received_at = ''NA''\<rparr>
   \<and> rows (csv (pdata (video_probe ''camera01'' 0 ex_server_nil (Some 0)
                          (initial_probe_state (ex_pdata None))))) =
       [[''0'', ''0'', ''frame_camera01_000000000.hevc'', ''1'', ''NA'', ''1'', ''false'',
         ''123'', ''1'', ''NA'', ''NA'']]"
proof -
  have s: "str_find (c_str ''{}'') (label_of ''ball'') 0 = None"
    "str_find (c_str ''{}'') (label_of ''frame_name'') 0 = None"
    "str_find (c_str ''{}'') (label_of ''innings'') 0 = None"
    "str_find (c_str ''{}'') (label_of ''isStart'') 0 = None"
    "str_find (c_str ''{}'') (label_of ''matchID'') 0 = None"
    "str_find (c_str ''{}'') (label_of ''over'') 0 = None"
    "str_find (c_str ''{}'') (label_of ''ptp_timestamp'') 0 = None"
    "str_find (c_str ''{}'') (label_of ''received_at'') 0 = None"
    by (simp_all add: c_str_def str_find_def label_of_def)
  have e: "ex_server_empty_object ''frame_camera01_000000000'' = Some (REDIS_REPLY_STRING ''{}'')"
    by (simp add: ex_server_empty_object_def)
  have f: "make_frame_filename ''camera01'' 0 = ''frame_camera01_000000000.hevc''"
    by (simp add: make_frame_filename_def c_str_def pad9_def dec.simps digit_char_def
        replicate_Suc [symmetric] numeral_eq_Suc)
  have z: "dec (unat (pts_90k_of 0)) = ''0''"
    by (simp add: pts_90k_of_def gst_util_uint64_scale_def GST_SECOND_def G_MAXUINT64_def
        dec.simps digit_char_def)
  have i: "is_open (csv (pdata (initial_probe_state (ex_pdata None))))"
    "rows (csv (pdata (initial_probe_state (ex_pdata None)))) = []"
    "redis (pdata (initial_probe_state (ex_pdata None))) = None"
    by (simp_all add: initial_probe_state_def ex_pdata_def)
  have a: "lookup_metadata None ex_server_nil ''frame_camera01_000000000'' =
        \<lparr>ball = ''1'', frame_name = ''NA'', innings = ''1'', isStart = ''false'',
         matchID = ''123'', over = ''1'', ptp_timestamp = ''NA'', received_at = ''NA''\<rparr>"
    using C6_lookup_failure_gives_initial_values [of None ex_server_nil
        "''frame_camera01_000000000''"]
    by blast
  have b: "lookup_metadata (Some RedisContext) ex_server_empty_object ''frame_camera01_000000000'' =
        \<lparr>ball = ''NA'', frame_name = ''NA'', innings = ''NA'', isStart = ''NA'',
         matchID = ''NA'', over = ''NA'', ptp_timestamp = ''NA'', received_at = ''NA''\<rparr>"
    using C6_lookup_failure_gives_initial_values [of "Some RedisContext" ex_server_empty_object
        "''frame_camera01_000000000''" RedisContext "''{}''"] e s
    by blast
  have k: "lookup_metadata None ex_server_nil (redis_key_of ''frame_camera01_000000000.hevc'')
        = \<lparr>ball = ''1'', frame_name = ''NA'', innings = ''1'', isStart = ''false'',
         matchID = ''123'', over = ''1'', ptp_timestamp = ''NA'', received_at = ''NA''\<rparr>"
    using C6_lookup_failure_gives_initial_values [of None ex_server_nil
        "redis_key_of ''frame_camera01_000000000.hevc''"]
    by blast
  have z0: "dec 0 = ''0''"
    by (simp add: dec.simps digit_char_def)
  have c: "rows (csv (pdata (video_probe ''camera01'' 0 ex_server_nil (Some 0)
                          (initial_probe_state (ex_pdata None))))) =
       [[''0'', ''0'', ''frame_camera01_000000000.hevc'', ''1'', ''NA'', ''1'', ''false'',
         ''123'', ''1'', ''NA'', ''NA'']]"
    by (simp add: probe_primary_rows i f k z z0 primary_row_def GST_CLOCK_TIME_NONE_def)
  from a b c e s(1) show ?thesis by blast
qed

text \<open>
  C7 as stated: for every pair of consecutive processed frames, one summary row is appended
  when the later frame's triple differs. The summary row is written only inside the branch
  for a buffer that carries a PTS: frame 0 (absent key, triple 1, 1, 1) followed by frame 1
  (value \<^verbatim>\<open>{}\<close>, triple NA, NA, NA) whose buffer has no PTS leaves the summary log as it
  was after frame 0.
\<close>

theorem C7_counterexample:
  "rows (csv_summary (pdata
      (video_probe ''camera01'' 1 ex_server_empty_object (Some GST_CLOCK_TIME_NONE)
         (video_probe ''camera01'' 0 ex_server_nil (Some 0)
            (initial_probe_state (ex_pdata (Some RedisContext)))))))
   = rows (csv_summary (pdata
         (video_probe ''camera01'' 0 ex_server_nil (Some 0)
            (initial_probe_state (ex_pdata (Some RedisContext))))))
   \<and> prev_ball (video_probe ''camera01'' 0 ex_server_nil (Some 0)
            (initial_probe_state (ex_pdata (Some RedisContext)))) = ''1''
   \<and> prev_ball (video_probe ''camera01'' 1 ex_server_empty_object (Some GST_CLOCK_TIME_NONE)
         (video_probe ''camera01'' 0 ex_server_nil (Some 0)
            (initial_probe_state (ex_pdata (Some RedisContext))))) = ''NA''"
  by (simp add: probe_summary_rows probe_prev probe_keeps lookup_metadata_def
      ex_server_nil_def ex_server_empty_object_def default_metadata_def
      extract_all_empty_object initial_probe_state_def ex_pdata_def)

text \<open>
  C7, amended. For every pair of consecutive processed frames whose later buffer carries
  a PTS, with the summary log open: exactly one summary row (the later frame's) is appended
  when the later frame's triple {ball, over, innings} differs from the earlier frame's, and
  none when the two triples are identical.
\<close>

theorem C7_one_summary_row_per_change:
  assumes "is_open (csv_summary (pdata st))"
    and "pts2 \<noteq> GST_CLOCK_TIME_NONE"
  shows "rows (csv_summary (pdata
            (video_probe prefix n2 server2 (Some pts2)
               (video_probe prefix n1 server1 (Some pts1) st)))) =
         rows (csv_summary (pdata (video_probe prefix n1 server1 (Some pts1) st))) @
           (if ball (lookup_metadata (redis (pdata st)) server2
                       (redis_key_of (make_frame_filename prefix n2)))
                 = ball (lookup_metadata (redis (pdata st)) server1
                       (redis_key_of (make_frame_filename prefix n1)))
               \<and> over (lookup_metadata (redis (pdata st)) server2
                       (redis_key_of (make_frame_filename prefix n2)))
                 = over (lookup_metadata (redis (pdata st)) server1
                       (redis_key_of (make_frame_filename prefix n1)))
               \<and> innings (lookup_metadata (redis (pdata st)) server2
                       (redis_key_of (make_frame_filename prefix n2)))
                 = innings (lookup_metadata (redis (pdata st)) server1
                       (redis_key_of (make_frame_filename prefix n1)))
            then []
            else [summary_row n2 (pts_90k_of pts2)
                    (lookup_metadata (redis (pdata st)) server2
                       (redis_key_of (make_frame_filename prefix n2)))])"
  using assms
  by (simp add: probe_summary_rows probe_prev probe_keeps triple_changed_def)

text \<open>Witness for C7: frame 0 with an absent key, then frame 1 with the value \<^verbatim>\<open>{}\<close>.\<close>

theorem C7_witness:
  "is_open (csv_summary (pdata (initial_probe_state (ex_pdata (Some RedisContext)))))
   \<and> (90000 :: guint64) \<noteq> GST_CLOCK_TIME_NONE
   \<and> rows (csv_summary (pdata
            (video_probe ''camera01'' 1 ex_server_empty_object (Some 90000)
               (video_probe ''camera01'' 0 ex_server_nil (Some 0)
                  (initial_probe_state (ex_pdata (Some RedisContext))))))) =
       rows (csv_summary (pdata
               (video_probe ''camera01'' 0 ex_server_nil (Some 0)
                  (initial_probe_state (ex_pdata (Some RedisContext)))))) @
         [summary_row 1 (pts_90k_of 90000)
            \<lparr>ball = ''NA'', frame_name = ''NA'', innings = ''NA'', isStart = ''NA'',
             matchID = ''NA'', over = ''NA'', ptp_timestamp = ''NA'', received_at = ''NA''\<rparr>]"
proof -
  have h1: "is_open (csv_summary (pdata (initial_probe_state (ex_pdata (Some RedisContext)))))"
    by (simp add: initial_probe_state_def ex_pdata_def)
  have h2: "(90000 :: guint64) \<noteq> GST_CLOCK_TIME_NONE"
    by (simp add: GST_CLOCK_TIME_NONE_def)
  have r: "redis (pdata (initial_probe_state (ex_pdata (Some RedisContext)))) = Some RedisContext"
    by (simp add: initial_probe_state_def ex_pdata_def)
  from C7_one_summary_row_per_change [OF h1 h2, of "''camera01''" 1 ex_server_empty_object
      0 ex_server_nil 0] h1 h2
  show ?thesis
    by (simp add: r lookup_metadata_def ex_server_nil_def ex_server_empty_object_def
        default_metadata_def extract_all_empty_object)
qed

text \<open>
  C10 as stated: the first processed frame of a run always produces a summary row,
  whatever metadata is returned for it. When the store returns
  \<^verbatim>\<open>{"ball":0,"innings":0,"over":0}\<close> for the first frame, its triple equals the initial
  previous values 0, 0, 0 and no summary row is written, although the buffer carries a PTS
  and the summary log is open.
\<close>

theorem C10_counterexample:
  "rows (csv_summary (pdata
      (video_probe ''camera01'' 0 ex_server_zero (Some 0)
         (initial_probe_state (ex_pdata (Some RedisContext)))))) = []"
  by (simp add: probe_summary_rows triple_changed_def lookup_metadata_def ex_server_zero_def
      extract_all_def extract_zero initial_probe_state_def ex_pdata_def)

text \<open>
  C10, amended. For the first processed frame of a run (previous values 0, 0, 0), when its
  buffer carries a PTS and the summary log is open, a summary row is written exactly when
  the frame's triple is not 0, 0, 0. In particular it is written whenever no metadata is
  found (no connection, failed lookup or absent key), since the initial values are 1, 1, 1.
\<close>

theorem C10_first_frame_summary_row:
  assumes "is_open (csv_summary pd)" and "pts \<noteq> GST_CLOCK_TIME_NONE"
  shows "rows (csv_summary (pdata (video_probe prefix n server (Some pts)
                                     (initial_probe_state pd)))) =
         rows (csv_summary pd) @
           (if ball (lookup_metadata (redis pd) server (redis_key_of (make_frame_filename prefix n)))
                 = ''0''
               \<and> over (lookup_metadata (redis pd) server (redis_key_of (make_frame_filename prefix n)))
                 = ''0''
               \<and> innings (lookup_metadata (redis pd) server (redis_key_of (make_frame_filename prefix n)))
                 = ''0''
            then []
            else [summary_row n (pts_90k_of pts)
                    (lookup_metadata (redis pd) server
                       (redis_key_of (make_frame_filename prefix n)))])
       \<and> (redis pd = None
            \<or> server (redis_key_of (make_frame_filename prefix n)) = None
            \<or> server (redis_key_of (make_frame_filename prefix n)) = Some REDIS_REPLY_OTHER
          \<longrightarrow> rows (csv_summary (pdata (video_probe prefix n server (Some pts)
                                          (initial_probe_state pd)))) =
               rows (csv_summary pd) @ [summary_row n (pts_90k_of pts) default_metadata])"
proof -
  let ?m = "lookup_metadata (redis pd) server (redis_key_of (make_frame_filename prefix n))"
  have a: "rows (csv_summary (pdata (video_probe prefix n server (Some pts)
                                     (initial_probe_state pd)))) =
         rows (csv_summary pd) @
           (if ball ?m = ''0'' \<and> over ?m = ''0'' \<and> innings ?m = ''0'' then []
            else [summary_row n (pts_90k_of pts) ?m])"
    using assms
    by (simp add: probe_summary_rows triple_changed_def initial_probe_state_def)
  have b: "redis pd = None
            \<or> server (redis_key_of (make_frame_filename prefix n)) = None
            \<or> server (redis_key_of (make_frame_filename prefix n)) = Some REDIS_REPLY_OTHER
          \<longrightarrow> rows (csv_summary (pdata (video_probe prefix n server (Some pts)
                                          (initial_probe_state pd)))) =
               rows (csv_summary pd) @ [summary_row n (pts_90k_of pts) default_metadata]"
  proof
    assume "redis pd = None
            \<or> server (redis_key_of (make_frame_filename prefix n)) = None
            \<or> server (redis_key_of (make_frame_filename prefix n)) = Some REDIS_REPLY_OTHER"
    then have "?m = default_metadata" by (rule lookup_default)
    then show "rows (csv_summary (pdata (video_probe prefix n server (Some pts)
                                          (initial_probe_state pd)))) =
               rows (csv_summary pd) @ [summary_row n (pts_90k_of pts) default_metadata]"
      by (simp add: a default_metadata_def)
  qed
  from a b show ?thesis by blast
qed

text \<open>Witness for C10: the first frame with a connection and an absent key.\<close>

theorem C10_witness:
  "is_open (csv_summary (ex_pdata (Some RedisContext)))
   \<and> (0 :: guint64) \<noteq> GST_CLOCK_TIME_NONE
   \<and> ex_server_nil (redis_key_of (make_frame_filename ''camera01'' 0)) = Some REDIS_REPLY_OTHER
   \<and> rows (csv_summary (pdata (video_probe ''camera01'' 0 ex_server_nil (Some 0)
                                  (initial_probe_state (ex_pdata (Some RedisContext)))))) =
       [summary_row 0 (pts_90k_of 0) default_metadata]"
proof -
  have h1: "is_open (csv_summary (ex_pdata (Some RedisContext)))"
    by (simp add: ex_pdata_def)
  have h2: "(0 :: guint64) \<noteq> GST_CLOCK_TIME_NONE"
    by (simp add: GST_CLOCK_TIME_NONE_def)
  have h3: "ex_server_nil (redis_key_of (make_frame_filename ''camera01'' 0)) = Some REDIS_REPLY_OTHER"
    by (simp add: ex_server_nil_def)
  have e: "rows (csv_summary (ex_pdata (Some RedisContext))) = []"
    by (simp add: ex_pdata_def)
  have "rows (csv_summary (pdata (video_probe ''camera01'' 0 ex_server_nil (Some 0)
                                  (initial_probe_state (ex_pdata (Some RedisContext)))))) =
       rows (csv_summary (ex_pdata (Some RedisContext)))
         @ [summary_row 0 (pts_90k_of 0) default_metadata]"
    using C10_first_frame_summary_row [OF h1 h2, of "''camera01''" 0 ex_server_nil] h3
    by blast
  with h1 h2 h3 e show ?thesis by simp
qed

end
